theory Spec2Isabelle
  imports Main "HOL-Library.AList"
begin

section \<open>Python values, exceptions and the file system\<close>

text \<open>
  The exceptions (subclasses of Python's \<open>Exception\<close>) that the modelled code can meet.
  \<open>OtherError\<close> stands for whatever an external library raises (for instance
  \<open>pickle.UnpicklingError\<close> or \<open>EOFError\<close>).
\<close>

datatype py_error =
    FileNotFoundError
  | FileExistsError
  | IsADirectoryError
  | PermissionError
  | TypeError
  | AttributeError
  | AssertionError
  | ValueError
  | OtherError string

text \<open>
  Everything Python raises derives from \<open>BaseException\<close>. \<open>py_error\<close> above is the
  class \<open>Exception\<close>, which is what \<open>except Exception\<close> catches; \<open>base_exception\<close> are
  the classes outside it. The file operations and the hash raise exceptions of class
  \<open>Exception\<close>. Unpickling is different: \<open>pickle.load\<close> calls what the file names
  (a file holding a call of \<open>sys.exit\<close> raises \<open>SystemExit\<close>), so it may raise either.
\<close>

datatype base_exception = SystemExit | KeyboardInterrupt | GeneratorExit

datatype py_raise = Exc py_error | Base base_exception

text \<open>
  The values a pickled cache record is made of: nested strings, numbers, booleans,
  sequences and mappings. A \<open>dict\<close> is an association list (keys in insertion order).
\<close>

datatype pyval =
    PNone
  | PBool bool
  | PInt int
  | PStr string
  | PList "pyval list"
  | PDict "(pyval \<times> pyval) list"

type_synonym pydict = "(pyval \<times> pyval) list"

text \<open>
  The file system is a store from path names to nodes. \<open>NoAccess\<close> is a regular file
  that the process may neither read nor write. Directories are entries of their own.
\<close>

datatype fnode = RegFile string | Dir | NoAccess

type_synonym fs = "string \<Rightarrow> fnode option"

text \<open>
  A computation with file-system effects that may raise: it takes the store and returns
  either the exception or the value, together with the store it leaves behind.
\<close>

type_synonym 'a io = "fs \<Rightarrow> (py_error + 'a) \<times> fs"

definition io_return :: "'a \<Rightarrow> 'a io" where
  "io_return x = (\<lambda>s. (Inr x, s))"

definition io_raise :: "py_error \<Rightarrow> 'a io" where
  "io_raise e = (\<lambda>s. (Inl e, s))"

definition io_lift :: "py_error + 'a \<Rightarrow> 'a io" where
  "io_lift r = (\<lambda>s. (r, s))"

definition io_bind :: "'a io \<Rightarrow> ('a \<Rightarrow> 'b io) \<Rightarrow> 'b io" where
  "io_bind m f = (\<lambda>s. case m s of (Inl e, s') \<Rightarrow> (Inl e, s') | (Inr x, s') \<Rightarrow> f x s')"

text \<open>\<^verbatim>\<open>try: result = body  except Exception: result = dflt\<close>\<close>

definition io_try :: "'a io \<Rightarrow> 'a \<Rightarrow> 'a io" where
  "io_try m dflt = (\<lambda>s. case m s of (Inl e, s') \<Rightarrow> (Inr dflt, s') | (Inr x, s') \<Rightarrow> (Inr x, s'))"

text \<open>
  The same for a computation that may raise anything: \<open>except Exception\<close> handles an
  exception of class \<open>Exception\<close> and lets every other one pass.
\<close>

type_synonym 'a io_any = "fs \<Rightarrow> (py_raise + 'a) \<times> fs"

definition io_exc :: "'a io \<Rightarrow> 'a io_any" where
  "io_exc m = (\<lambda>s. case m s of (Inl e, s') \<Rightarrow> (Inl (Exc e), s') | (Inr x, s') \<Rightarrow> (Inr x, s'))"

definition any_lift :: "py_raise + 'a \<Rightarrow> 'a io_any" where
  "any_lift r = (\<lambda>s. (r, s))"

definition any_bind :: "'a io_any \<Rightarrow> ('a \<Rightarrow> 'b io_any) \<Rightarrow> 'b io_any" where
  "any_bind m f = (\<lambda>s. case m s of (Inl e, s') \<Rightarrow> (Inl e, s') | (Inr x, s') \<Rightarrow> f x s')"

definition try_except_Exception :: "'a io_any \<Rightarrow> 'a \<Rightarrow> 'a io_any" where
  "try_except_Exception m dflt =
     (\<lambda>s. case m s of
            (Inl (Exc e), s') \<Rightarrow> (Inr dflt, s')
          | (Inl (Base x), s') \<Rightarrow> (Inl (Base x), s')
          | (Inr x, s') \<Rightarrow> (Inr x, s'))"

text \<open>\<^verbatim>\<open>os.path.exists(p)\<close>\<close>

definition path_exists :: "string \<Rightarrow> fs \<Rightarrow> bool" where
  "path_exists p s = (s p \<noteq> None)"

text \<open>\<^verbatim>\<open>with open(p, "r") as f: f.read()\<close> (and the same with mode \<open>"rb"\<close>)\<close>

definition open_read :: "string \<Rightarrow> string io" where
  "open_read p = (\<lambda>s. case s p of
       None \<Rightarrow> (Inl FileNotFoundError, s)
     | Some Dir \<Rightarrow> (Inl IsADirectoryError, s)
     | Some NoAccess \<Rightarrow> (Inl PermissionError, s)
     | Some (RegFile txt) \<Rightarrow> (Inr txt, s))"

text \<open>\<^verbatim>\<open>open(p, "wb")\<close>: creates the file, or truncates the one that is there.\<close>

definition open_wb :: "string \<Rightarrow> unit io" where
  "open_wb p = (\<lambda>s. case s p of
       Some Dir \<Rightarrow> (Inl IsADirectoryError, s)
     | Some NoAccess \<Rightarrow> (Inl PermissionError, s)
     | _ \<Rightarrow> (Inr (), s(p \<mapsto> RegFile [])))"

text \<open>\<open>f.write(data)\<close> on the file just opened for writing.\<close>

definition write_file :: "string \<Rightarrow> string \<Rightarrow> unit io" where
  "write_file p data = (\<lambda>s. (Inr (), s(p \<mapsto> RegFile data)))"

text \<open>\<^verbatim>\<open>os.makedirs(d, exist_ok=True)\<close>\<close>

definition makedirs :: "string \<Rightarrow> unit io" where
  "makedirs d = (\<lambda>s. case s d of
       Some Dir \<Rightarrow> (Inr (), s)
     | Some _ \<Rightarrow> (Inl FileExistsError, s)
     | None \<Rightarrow> (if d = [] then (Inl FileNotFoundError, s) else (Inr (), s(d \<mapsto> Dir))))"

section \<open>Strings and paths (POSIX)\<close>

text \<open>\<open>s.split(c)\<close> for a one-character separator: never the empty list.\<close>

fun split_on :: "char \<Rightarrow> string \<Rightarrow> string list" where
  "split_on c [] = [[]]"
| "split_on c (x # xs) =
     (if x = c then [] # split_on c xs
      else (case split_on c xs of [] \<Rightarrow> [[x]] | w # ws \<Rightarrow> (x # w) # ws))"

text \<open>\<open>sep.join(parts)\<close>\<close>

fun str_join :: "string \<Rightarrow> string list \<Rightarrow> string" where
  "str_join sep [] = []"
| "str_join sep [x] = x"
| "str_join sep (x # y # ys) = x @ sep @ str_join sep (y # ys)"

text \<open>One step of \<open>posixpath.join\<close>, and the whole \<open>os.path.join(a, *p)\<close>.\<close>

definition join2 :: "string \<Rightarrow> string \<Rightarrow> string" where
  "join2 path b =
     (if b \<noteq> [] \<and> hd b = CHR ''/'' then b
      else if path = [] \<or> last path = CHR ''/'' then path @ b
      else path @ ''/'' @ b)"

definition path_join :: "string \<Rightarrow> string list \<Rightarrow> string" where
  "path_join a p = foldl join2 a p"

text \<open>
  \<open>posixpath.dirname\<close>: the part up to the last slash, with trailing slashes removed
  unless it consists of slashes only.
\<close>

definition rstrip_sep :: "string \<Rightarrow> string" where
  "rstrip_sep p = rev (dropWhile (\<lambda>c. c = CHR ''/'') (rev p))"

definition dirname :: "string \<Rightarrow> string" where
  "dirname p =
     (let head = rev (dropWhile (\<lambda>c. c \<noteq> CHR ''/'') (rev p))
      in if head \<noteq> [] \<and> head \<noteq> replicate (length head) CHR ''/''
         then rstrip_sep head else head)"

section \<open>The build cache (gt4py/backend/cache.py)\<close>

text \<open>
  What the module takes from outside: the settings of \<open>gt_config\<close>, the interpreter tag
  (\<open>"py{major}{minor}_{api}"\<close>), the library version, and the functions of \<open>gt_utils\<close>
  and \<open>pickle\<close>, none of which is defined in the files verified here. They are
  parameters of every definition below.
\<close>

record externals =
  root_path :: string
  dir_name :: string
  root_package_name :: string
  cpython_id :: string
  gt_version :: string
  slugify :: "string \<Rightarrow> string"
  shash :: "string \<Rightarrow> py_error + string"
  make_dir :: "string \<Rightarrow> unit io"
  pickle_dumps :: "pyval \<Rightarrow> py_error + string"
  pickle_loads :: "string \<Rightarrow> py_raise + pyval"

record stencil_id =
  qualified_name :: string
  version :: string

definition get_stencil_class_name :: "stencil_id \<Rightarrow> string" where
  "get_stencil_class_name sid =
     (let components = split_on CHR ''.'' (qualified_name sid)
      in last components @ ''__'' @ version sid)"

definition get_stencil_package_name :: "externals \<Rightarrow> stencil_id \<Rightarrow> string" where
  "get_stencil_package_name ext sid =
     (let components = split_on CHR ''.'' (qualified_name sid)
      in str_join ''.'' ([root_package_name ext] @ butlast components))"

definition get_stencil_module_name :: "externals \<Rightarrow> stencil_id \<Rightarrow> bool \<Rightarrow> string" where
  "get_stencil_module_name ext sid qualified =
     (let module_name = ''m_'' @ get_stencil_class_name sid
      in if qualified then get_stencil_package_name ext sid @ ''.'' @ module_name
         else module_name)"

definition get_base_path :: "externals \<Rightarrow> string \<Rightarrow> string io" where
  "get_base_path ext backend_id =
     (let cache_root = path_join (root_path ext) [dir_name ext]
      in io_bind
           (\<lambda>s. if \<not> path_exists cache_root s then make_dir ext cache_root s
                else (Inr (), s))
           (\<lambda>_. io_return (path_join cache_root [cpython_id ext, slugify ext backend_id])))"

definition get_stencil_package_path :: "externals \<Rightarrow> string \<Rightarrow> stencil_id \<Rightarrow> string io" where
  "get_stencil_package_path ext backend_id sid =
     (let components = split_on CHR ''.'' (qualified_name sid)
      in io_bind (get_base_path ext backend_id)
           (\<lambda>base. io_return (path_join base (butlast components))))"

definition get_stencil_module_path :: "externals \<Rightarrow> string \<Rightarrow> stencil_id \<Rightarrow> string io" where
  "get_stencil_module_path ext backend_id sid =
     (let stencil_module_name = get_stencil_module_name ext sid False
      in io_bind (get_stencil_package_path ext backend_id sid)
           (\<lambda>pkg. io_return (path_join pkg [stencil_module_name @ ''.py''])))"

definition get_cache_info_path :: "externals \<Rightarrow> string \<Rightarrow> stencil_id \<Rightarrow> string io" where
  "get_cache_info_path ext backend_id sid =
     io_bind (get_stencil_module_path ext backend_id sid)
       (\<lambda>p. io_return (take (length p - 3) p @ ''.cacheinfo''))"

text \<open>
  The dict display \<^verbatim>\<open>{k1: v1, ..., **extra}\<close>: the items of \<open>extra\<close> are stored in
  order, each replacing the value of a key that is already there.
\<close>

definition dict_unpack :: "pydict \<Rightarrow> pydict \<Rightarrow> pydict" where
  "dict_unpack d extra = foldl (\<lambda>acc (k, v). AList.update k v acc) d extra"

definition generate_cache_info :: "externals \<Rightarrow> string \<Rightarrow> stencil_id \<Rightarrow> pydict \<Rightarrow> pydict io" where
  "generate_cache_info ext backend_id sid extra_cache_info =
     io_bind (get_stencil_module_path ext backend_id sid) (\<lambda>module_file_name.
     io_bind (open_read module_file_name) (\<lambda>source.
     io_bind (io_lift (shash ext source)) (\<lambda>module_shash.
     io_return (dict_unpack
       [(PStr ''gt4py_version'', PStr (gt_version ext)),
        (PStr ''backend'', PStr backend_id),
        (PStr ''stencil_name'', PStr (qualified_name sid)),
        (PStr ''stencil_version'', PStr (version sid)),
        (PStr ''module_shash'', PStr module_shash)]
       extra_cache_info))))"

text \<open>
  \<open>pickle.dump(obj, f)\<close> on the file opened at \<open>p\<close>: an object that cannot be pickled
  raises and leaves the file as it was opened.
\<close>

definition pickle_dump :: "externals \<Rightarrow> pyval \<Rightarrow> string \<Rightarrow> unit io" where
  "pickle_dump ext obj p = io_bind (io_lift (pickle_dumps ext obj)) (\<lambda>data. write_file p data)"

definition update_cache :: "externals \<Rightarrow> string \<Rightarrow> stencil_id \<Rightarrow> pydict \<Rightarrow> unit io" where
  "update_cache ext backend_id sid extra_cache_info =
     io_bind (generate_cache_info ext backend_id sid extra_cache_info) (\<lambda>cache_info.
     io_bind (get_cache_info_path ext backend_id sid) (\<lambda>cache_file_name.
     io_bind (makedirs (dirname cache_file_name)) (\<lambda>_.
     io_bind (open_wb cache_file_name) (\<lambda>_.
     pickle_dump ext (PDict cache_info) cache_file_name))))"

text \<open>
  \<open>types.SimpleNamespace(**d)\<close>: a keyword must be a string (\<open>TypeError\<close> otherwise);
  the attributes of the namespace are the items of the dict.
\<close>

fun simple_namespace :: "pydict \<Rightarrow> py_error + (string \<times> pyval) list" where
  "simple_namespace [] = Inr []"
| "simple_namespace ((PStr k, v) # d) =
     (case simple_namespace d of Inl e \<Rightarrow> Inl e | Inr ns \<Rightarrow> Inr ((k, v) # ns))"
| "simple_namespace (_ # d) = Inl TypeError"

text \<open>Attribute access \<open>ns.name\<close>.\<close>

definition getattr :: "(string \<times> pyval) list \<Rightarrow> string \<Rightarrow> py_error + pyval" where
  "getattr ns name = (case map_of ns name of None \<Rightarrow> Inl AttributeError | Some v \<Rightarrow> Inr v)"

text \<open>
  \<open>ns.name == s and rest\<close> for a string \<open>s\<close>: a value of the record equals a string
  exactly when it is that string; \<open>and\<close> evaluates \<open>rest\<close> only after a true comparison.
\<close>

definition attr_eq_and :: "(string \<times> pyval) list \<Rightarrow> string \<Rightarrow> string \<Rightarrow> py_error + bool \<Rightarrow> py_error + bool" where
  "attr_eq_and ns name s rest =
     (case getattr ns name of
        Inl e \<Rightarrow> Inl e
      | Inr v \<Rightarrow> if v = PStr s then rest else Inr False)"

definition validate_cache_info :: "externals \<Rightarrow> string \<Rightarrow> stencil_id \<Rightarrow> pydict \<Rightarrow> bool io" where
  "validate_cache_info ext backend_id sid cache_info =
     io_try
       (io_bind (io_lift (simple_namespace cache_info)) (\<lambda>ns.
        io_bind (get_stencil_module_path ext backend_id sid) (\<lambda>module_file_name.
        io_bind (open_read module_file_name) (\<lambda>source.
        io_bind (io_lift (shash ext source)) (\<lambda>module_shash.
        io_lift
          (attr_eq_and ns ''backend'' backend_id
          (attr_eq_and ns ''stencil_name'' (qualified_name sid)
          (attr_eq_and ns ''stencil_version'' (version sid)
          (attr_eq_and ns ''module_shash'' module_shash (Inr True))))))))))
       False"

text \<open>\<open>assert isinstance(cache_info, dict)\<close>\<close>

definition assert_dict :: "pyval \<Rightarrow> py_error + pydict" where
  "assert_dict v = (case v of PDict d \<Rightarrow> Inr d | _ \<Rightarrow> Inl AssertionError)"

definition check_cache :: "externals \<Rightarrow> string \<Rightarrow> stencil_id \<Rightarrow> bool io_any" where
  "check_cache ext backend_id sid =
     try_except_Exception
       (any_bind (io_exc (get_cache_info_path ext backend_id sid)) (\<lambda>cache_file_name.
        any_bind (io_exc (open_read cache_file_name)) (\<lambda>data.
        any_bind (any_lift (pickle_loads ext data)) (\<lambda>cache_info.
        any_bind (io_exc (io_lift (assert_dict cache_info))) (\<lambda>d.
        io_exc (validate_cache_info ext backend_id sid d))))))
       False"

subsection \<open>The pure part of the path functions\<close>

text \<open>
  \<open>get_base_path\<close> creates the cache root when it is missing and then computes a path
  that depends on the settings only. The definitions below name that effect and the
  paths that \<open>get_stencil_module_path\<close> and \<open>get_cache_info_path\<close> return whenever they
  return (lemmas \<open>get_stencil_module_path_eq\<close> and \<open>get_cache_info_path_eq\<close>).
\<close>

definition cache_root :: "externals \<Rightarrow> string" where
  "cache_root ext = path_join (root_path ext) [dir_name ext]"

definition init_cache_root :: "externals \<Rightarrow> unit io" where
  "init_cache_root ext =
     (\<lambda>s. if \<not> path_exists (cache_root ext) s then make_dir ext (cache_root ext) s
          else (Inr (), s))"

definition module_path :: "externals \<Rightarrow> string \<Rightarrow> stencil_id \<Rightarrow> string" where
  "module_path ext b sid =
     path_join
       (path_join (path_join (cache_root ext) [cpython_id ext, slugify ext b])
          (butlast (split_on CHR ''.'' (qualified_name sid))))
       [get_stencil_module_name ext sid False @ ''.py'']"

definition cache_info_path :: "externals \<Rightarrow> string \<Rightarrow> stencil_id \<Rightarrow> string" where
  "cache_info_path ext b sid =
     take (length (module_path ext b sid) - 3) (module_path ext b sid) @ ''.cacheinfo''"

text \<open>What \<open>check_cache\<close> does once the path of the metadata file is known.\<close>

definition check_cache_at :: "externals \<Rightarrow> string \<Rightarrow> stencil_id \<Rightarrow> string \<Rightarrow> bool io_any" where
  "check_cache_at ext b sid p =
     try_except_Exception
       (any_bind (io_exc (open_read p)) (\<lambda>data.
        any_bind (any_lift (pickle_loads ext data)) (\<lambda>cache_info.
        any_bind (io_exc (io_lift (assert_dict cache_info))) (\<lambda>d.
        io_exc (validate_cache_info ext b sid d)))))
       False"

text \<open>The standard fields of a record, for the hash \<open>h\<close> of the module text.\<close>

definition std_info :: "externals \<Rightarrow> string \<Rightarrow> stencil_id \<Rightarrow> string \<Rightarrow> pydict" where
  "std_info ext b sid h =
     [(PStr ''gt4py_version'', PStr (gt_version ext)),
      (PStr ''backend'', PStr b),
      (PStr ''stencil_name'', PStr (qualified_name sid)),
      (PStr ''stencil_version'', PStr (version sid)),
      (PStr ''module_shash'', PStr h)]"

text \<open>\<open>isinstance(k, str)\<close>\<close>

fun is_PStr :: "pyval \<Rightarrow> bool" where
  "is_PStr (PStr _) = True"
| "is_PStr _ = False"

subsection \<open>A concrete setting for the examples\<close>

text \<open>
  A cache rooted at \<open>/c/gt\<close>, a hash that reverses the text, a \<open>make_dir\<close> that enters
  the directory into the store, and a pickle that can write and read back one object.
  The content \<open>csys exit R.\<close> stands for the pickle of a call of \<open>sys.exit\<close>
  (the bytes \<open>csys\\nexit\\n(tR.\<close>), on which \<open>pickle.load\<close> raises \<open>SystemExit\<close>; any
  other content is not a pickle.
\<close>

definition example_ext :: "pyval \<Rightarrow> externals" where
  "example_ext pobj =
     \<lparr> root_path = ''/c'', dir_name = ''gt'', root_package_name = ''_GT_'',
       cpython_id = ''py38'', gt_version = ''0.1'',
       slugify = (\<lambda>x. x),
       shash = (\<lambda>src. Inr (rev src)),
       make_dir = (\<lambda>p s. (Inr (), s(p \<mapsto> Dir))),
       pickle_dumps = (\<lambda>v. if v = pobj then Inr ''P'' else Inl (OtherError ''PicklingError'')),
       pickle_loads = (\<lambda>data. if data = ''P'' then Inr pobj
                               else if data = ''csys exit R.'' then Inl (Base SystemExit)
                               else Inl (Exc (OtherError ''UnpicklingError''))) \<rparr>"

definition example_id :: stencil_id where
  "example_id = \<lparr> qualified_name = ''a.f'', version = ''v1'' \<rparr>"

text \<open>The store with the cache root and the generated module holding the text \<open>src\<close>.\<close>

definition example_fs :: "string \<Rightarrow> fs" where
  "example_fs src = [''/c/gt'' \<mapsto> Dir, ''/c/gt/py38/np/a/m_f__v1.py'' \<mapsto> RegFile src]"


text \<open>The record that \<open>generate_cache_info\<close> builds there for the module text \<open>abc\<close>.\<close>

definition example_record :: pydict where
  "example_record =
     [(PStr ''gt4py_version'', PStr ''0.1''), (PStr ''backend'', PStr ''np''),
      (PStr ''stencil_name'', PStr ''a.f''), (PStr ''stencil_version'', PStr ''v1''),
      (PStr ''module_shash'', PStr ''cba'')]"

text \<open>The example record with one field overridden by the extra info \<open>{k: v}\<close>.\<close>

definition shadow_record :: "string \<Rightarrow> string \<Rightarrow> pydict" where
  "shadow_record k v = dict_unpack example_record [(PStr k, PStr v)]"

section \<open>The upcasting pass (gtc/passes/gtir_upcaster.py)\<close>

text \<open>
  Modelled from the spec: the node classes of \<open>gtc.gtir\<close> are not among the verified
  files. Following the spec's data model, every expression node carries a resolved scalar
  dtype; binary operations, ternary operations, native function calls and parallel
  assignments are the kinds the pass rewrites, \<open>Cast\<close> is the node it inserts, and
  \<open>OtherExpr\<close> and \<open>OtherNode\<close> stand for every other kind (its own fields as a label,
  and its children). The dtype domain is any total order \<open>'d\<close>: the pass only uses
  \<open>==\<close> and \<open>max\<close> on it. The left side of a parallel assignment is a field access,
  which has no sub-expression.
\<close>

datatype 'd expr =
    BinaryOp string "'d expr" "'d expr" 'd
  | TernaryOp "'d expr" "'d expr" "'d expr" 'd
  | NativeFuncCall string "'d expr list" 'd
  | Cast 'd "'d expr"
  | OtherExpr string "'d expr list" 'd

datatype 'd field_access = FieldAccess string 'd

datatype 'd node =
    ParAssignStmt "'d field_access" "'d expr"
  | ExprChild "'d expr"
  | OtherNode string "'d node list"

text \<open>\<open>node.dtype\<close>\<close>

fun dtype :: "'d expr \<Rightarrow> 'd" where
  "dtype (BinaryOp op left right d) = d"
| "dtype (TernaryOp cond true_expr false_expr d) = d"
| "dtype (NativeFuncCall func args d) = d"
| "dtype (Cast d e) = d"
| "dtype (OtherExpr kind children d) = d"

fun field_dtype :: "'d field_access \<Rightarrow> 'd" where
  "field_dtype (FieldAccess name d) = d"

text \<open>
  What a rewrite returns: \<open>Same n\<close> is the object that was passed in, \<open>Copy n\<close> is a
  newly created object. \<open>obj\<close> forgets the difference.
\<close>

datatype 'a reuse = Same 'a | Copy 'a

fun obj :: "'a reuse \<Rightarrow> 'a" where
  "obj (Same n) = n"
| "obj (Copy n) = n"

definition upcast_node :: "'d \<Rightarrow> 'd expr \<Rightarrow> 'd expr" where
  "upcast_node target_dtype node =
     (if dtype node = target_dtype then node else Cast target_dtype node)"

text \<open>Python's \<open>max\<close> of a list: \<open>ValueError\<close> on the empty list.\<close>

fun py_max :: "'a::linorder list \<Rightarrow> py_error + 'a" where
  "py_max [] = Inl ValueError"
| "py_max (x # xs) = Inr (foldl max x xs)"

definition upcast_nodes :: "'d::linorder expr list \<Rightarrow> py_error + 'd expr list" where
  "upcast_nodes exprs =
     (case py_max (map dtype exprs) of
        Inl e \<Rightarrow> Inl e
      | Inr target_dtype \<Rightarrow> Inr (map (upcast_node target_dtype) exprs))"

text \<open>The unpacking \<open>a, b = xs\<close>.\<close>

fun unpack2 :: "'a list \<Rightarrow> py_error + 'a \<times> 'a" where
  "unpack2 [a, b] = Inr (a, b)"
| "unpack2 _ = Inl ValueError"

text \<open>
  \<open>_update_node(node, updated_children)\<close>: \<open>changed\<close> is the test
  \<open>any([old_children[k] != updated_children[k] ...])\<close>, a comparison of values, and
  \<open>copy\<close> is \<open>node.copy(update=updated_children)\<close>.
\<close>

definition update_node :: "'a \<Rightarrow> bool \<Rightarrow> 'a \<Rightarrow> 'a reuse" where
  "update_node node changed copy = (if changed then Copy copy else Same node)"

text \<open>
  The visitor. The four \<open>visit_...\<close> methods of \<open>_GTIRUpcasting\<close> are the equations
  for \<open>BinaryOp\<close>, \<open>TernaryOp\<close>, \<open>NativeFuncCall\<close> and \<open>ParAssignStmt\<close>.

  Modelled from the spec: the generic traversal of \<open>eve.NodeTranslator\<close> is not among
  the verified files. By the spec, for every other node kind (here \<open>Cast\<close>,
  \<open>OtherExpr\<close>, \<open>OtherNode\<close>, and lists of nodes) it visits the children and returns
  the original node when no child changed, a copy with the new children otherwise.
\<close>

fun visit :: "'d::linorder expr \<Rightarrow> py_error + 'd expr reuse"
  and visit_list :: "'d expr list \<Rightarrow> py_error + 'd expr list" where
  "visit (BinaryOp op l r d) =
     (case visit l of Inl e \<Rightarrow> Inl e | Inr l' \<Rightarrow>
     (case visit r of Inl e \<Rightarrow> Inl e | Inr r' \<Rightarrow>
     (case upcast_nodes [obj l', obj r'] of Inl e \<Rightarrow> Inl e | Inr ns \<Rightarrow>
     (case unpack2 ns of Inl e \<Rightarrow> Inl e | Inr (left, right) \<Rightarrow>
        Inr (update_node (BinaryOp op l r d) (l \<noteq> left \<or> r \<noteq> right)
               (BinaryOp op left right d))))))"
| "visit (TernaryOp c t f d) =
     (case visit t of Inl e \<Rightarrow> Inl e | Inr t' \<Rightarrow>
     (case visit f of Inl e \<Rightarrow> Inl e | Inr f' \<Rightarrow>
     (case upcast_nodes [obj t', obj f'] of Inl e \<Rightarrow> Inl e | Inr ns \<Rightarrow>
     (case unpack2 ns of Inl e \<Rightarrow> Inl e | Inr (true_expr, false_expr) \<Rightarrow>
     (case visit c of Inl e \<Rightarrow> Inl e | Inr c' \<Rightarrow>
        Inr (update_node (TernaryOp c t f d)
               (t \<noteq> true_expr \<or> f \<noteq> false_expr \<or> c \<noteq> obj c')
               (TernaryOp (obj c') true_expr false_expr d)))))))"
| "visit (NativeFuncCall func args d) =
     (case visit_list args of Inl e \<Rightarrow> Inl e | Inr args' \<Rightarrow>
     (case upcast_nodes args' of Inl e \<Rightarrow> Inl e | Inr args'' \<Rightarrow>
        Inr (update_node (NativeFuncCall func args d) (args \<noteq> args'')
               (NativeFuncCall func args'' d))))"
| "visit (Cast d x) =
     (case visit x of Inl e \<Rightarrow> Inl e | Inr x' \<Rightarrow>
        Inr (update_node (Cast d x) (x \<noteq> obj x') (Cast d (obj x'))))"
| "visit (OtherExpr kind children d) =
     (case visit_list children of Inl e \<Rightarrow> Inl e | Inr children' \<Rightarrow>
        Inr (update_node (OtherExpr kind children d) (children \<noteq> children')
               (OtherExpr kind children' d)))"
| "visit_list [] = Inr []"
| "visit_list (x # xs) =
     (case visit x of Inl e \<Rightarrow> Inl e | Inr x' \<Rightarrow>
     (case visit_list xs of Inl e \<Rightarrow> Inl e | Inr xs' \<Rightarrow> Inr (obj x' # xs')))"

fun visit_node :: "'d::linorder node \<Rightarrow> py_error + 'd node reuse"
  and visit_nodes :: "'d node list \<Rightarrow> py_error + 'd node list" where
  "visit_node (ParAssignStmt left right) =
     (case visit right of Inl e \<Rightarrow> Inl e | Inr r' \<Rightarrow>
        (let right' = upcast_node (field_dtype left) (obj r')
         in Inr (update_node (ParAssignStmt left right) (right \<noteq> right')
                   (ParAssignStmt left right'))))"
| "visit_node (ExprChild x) =
     (case visit x of Inl e \<Rightarrow> Inl e
      | Inr (Same x') \<Rightarrow> Inr (Same (ExprChild x'))
      | Inr (Copy x') \<Rightarrow> Inr (Copy (ExprChild x')))"
| "visit_node (OtherNode kind children) =
     (case visit_nodes children of Inl e \<Rightarrow> Inl e | Inr children' \<Rightarrow>
        Inr (update_node (OtherNode kind children) (children \<noteq> children')
               (OtherNode kind children')))"
| "visit_nodes [] = Inr []"
| "visit_nodes (x # xs) =
     (case visit_node x of Inl e \<Rightarrow> Inl e | Inr x' \<Rightarrow>
     (case visit_nodes xs of Inl e \<Rightarrow> Inl e | Inr xs' \<Rightarrow> Inr (obj x' # xs')))"

definition upcast :: "'d::linorder node \<Rightarrow> py_error + 'd node reuse" where
  "upcast node = visit_node node"

text \<open>The tree that a visit returns, whichever object holds it.\<close>

definition visited :: "'d::linorder expr \<Rightarrow> py_error + 'd expr" where
  "visited x = (case visit x of Inl e \<Rightarrow> Inl e | Inr r \<Rightarrow> Inr (obj r))"

definition upcast_value :: "'d::linorder node \<Rightarrow> py_error + 'd node" where
  "upcast_value node = (case upcast node of Inl e \<Rightarrow> Inl e | Inr r \<Rightarrow> Inr (obj r))"

text \<open>A tree contains a native function call without arguments.\<close>

fun has_empty_call :: "'d expr \<Rightarrow> bool"
  and has_empty_call_list :: "'d expr list \<Rightarrow> bool" where
  "has_empty_call (BinaryOp op l r d) = (has_empty_call l \<or> has_empty_call r)"
| "has_empty_call (TernaryOp c t f d) =
     (has_empty_call c \<or> has_empty_call t \<or> has_empty_call f)"
| "has_empty_call (NativeFuncCall func args d) = (args = [] \<or> has_empty_call_list args)"
| "has_empty_call (Cast d x) = has_empty_call x"
| "has_empty_call (OtherExpr kind children d) = has_empty_call_list children"
| "has_empty_call_list [] = False"
| "has_empty_call_list (x # xs) = (has_empty_call x \<or> has_empty_call_list xs)"

fun node_has_empty_call :: "'d node \<Rightarrow> bool"
  and nodes_have_empty_call :: "'d node list \<Rightarrow> bool" where
  "node_has_empty_call (ParAssignStmt left right) = has_empty_call right"
| "node_has_empty_call (ExprChild x) = has_empty_call x"
| "node_has_empty_call (OtherNode kind children) = nodes_have_empty_call children"
| "nodes_have_empty_call [] = False"
| "nodes_have_empty_call (x # xs) = (node_has_empty_call x \<or> nodes_have_empty_call xs)"

subsection \<open>Example trees\<close>

text \<open>Three dtypes as numbers, in promotion order: int32, float32, float64.\<close>

definition INT32 :: nat where "INT32 = 14"

definition FLOAT32 :: nat where "FLOAT32 = 104"

definition FLOAT64 :: nat where "FLOAT64 = 108"

definition literal :: "nat \<Rightarrow> nat expr" where
  "literal d = OtherExpr ''Literal'' [] d"

text \<open>\<open>out[float32] = lit[int32] + lit[float64]\<close> inside a stencil, and its upcast.\<close>

definition example_tree :: "nat node" where
  "example_tree =
     OtherNode ''Stencil''
       [ParAssignStmt (FieldAccess ''out'' FLOAT32)
          (BinaryOp ''+'' (literal INT32) (literal FLOAT64) FLOAT64)]"

definition example_tree_upcast :: "nat node" where
  "example_tree_upcast =
     OtherNode ''Stencil''
       [ParAssignStmt (FieldAccess ''out'' FLOAT32)
          (Cast FLOAT32
             (BinaryOp ''+'' (Cast FLOAT64 (literal INT32)) (literal FLOAT64) FLOAT64))]"

text \<open>A stencil with a native function call that has no argument.\<close>

definition empty_call_tree :: "nat node" where
  "empty_call_tree =
     OtherNode ''Stencil''
       [ParAssignStmt (FieldAccess ''out'' FLOAT64) (NativeFuncCall ''sin'' [] FLOAT64)]"

section \<open>Properties of the build cache\<close>

lemma io_bind_return [simp]: "io_bind (io_return x) f = f x"
  by (simp add: io_bind_def io_return_def)

lemma io_bind_Inr: "m s = (Inr x, s') \<Longrightarrow> io_bind m f s = f x s'"
  by (simp add: io_bind_def)

lemma io_bind_Inl: "m s = (Inl e, s') \<Longrightarrow> io_bind m f s = (Inl e, s')"
  by (simp add: io_bind_def)

lemma io_lift_apply [simp]: "io_lift r s = (r, s)"
  by (simp add: io_lift_def)

lemma io_return_apply [simp]: "io_return x s = (Inr x, s)"
  by (simp add: io_return_def)

lemma io_raise_apply [simp]: "io_raise e s = (Inl e, s)"
  by (simp add: io_raise_def)

lemma io_try_total: "fst (io_try m d s) = Inr True \<or> fst (io_try m d s) = Inr False"
  by (cases "m s" rule: prod.exhaust; cases "fst (m s)";
      auto simp: io_try_def split: prod.splits sum.splits)

lemma open_read_state: "open_read p s1 = (r, s2) \<Longrightarrow> s2 = s1"
  by (auto simp: open_read_def split: option.splits fnode.splits)

lemma attr_chain_True:
  "attr_eq_and ns a x (attr_eq_and ns b y (attr_eq_and ns c z (attr_eq_and ns d w (Inr True))))
     = Inr True
   \<longleftrightarrow> getattr ns a = Inr (PStr x) \<and> getattr ns b = Inr (PStr y) \<and>
       getattr ns c = Inr (PStr z) \<and> getattr ns d = Inr (PStr w)"
  by (auto simp: attr_eq_and_def split: sum.splits if_splits)

lemma validate_cache_info_True:
  "fst (validate_cache_info ext b sid cache_info s) = Inr True \<longleftrightarrow>
     (\<exists>ns p s1 source h.
        simple_namespace cache_info = Inr ns \<and>
        get_stencil_module_path ext b sid s = (Inr p, s1) \<and>
        open_read p s1 = (Inr source, s1) \<and>
        shash ext source = Inr h \<and>
        getattr ns ''backend'' = Inr (PStr b) \<and>
        getattr ns ''stencil_name'' = Inr (PStr (qualified_name sid)) \<and>
        getattr ns ''stencil_version'' = Inr (PStr (version sid)) \<and>
        getattr ns ''module_shash'' = Inr (PStr h))" (is "?L \<longleftrightarrow> ?R")
proof (cases "simple_namespace cache_info")
  case (Inl e)
  then show ?thesis
    by (simp add: validate_cache_info_def io_try_def io_bind_def)
next
  case ns: (Inr ns)
  obtain r s1 where mp: "get_stencil_module_path ext b sid s = (r, s1)"
    by (cases "get_stencil_module_path ext b sid s")
  show ?thesis
  proof (cases r)
    case (Inl e)
    with ns mp show ?thesis
      by (simp add: validate_cache_info_def io_try_def io_bind_def)
  next
    case p: (Inr p)
    obtain r2 s2 where rd: "open_read p s1 = (r2, s2)"
      by (cases "open_read p s1")
    then have s2: "s2 = s1" by (rule open_read_state)
    show ?thesis
    proof (cases r2)
      case (Inl e)
      with ns mp p rd s2 show ?thesis
        by (simp add: validate_cache_info_def io_try_def io_bind_def)
    next
      case src: (Inr source)
      show ?thesis
      proof (cases "shash ext source")
        case (Inl e)
        with ns mp p rd s2 src show ?thesis
          by (simp add: validate_cache_info_def io_try_def io_bind_def)
      next
        case h: (Inr h)
        have "?L \<longleftrightarrow>
          attr_eq_and ns ''backend'' b
            (attr_eq_and ns ''stencil_name'' (qualified_name sid)
            (attr_eq_and ns ''stencil_version'' (version sid)
            (attr_eq_and ns ''module_shash'' h (Inr True)))) = Inr True"
          using ns mp p rd s2 src h
          by (simp add: validate_cache_info_def io_try_def io_bind_def split: sum.splits)
        also have "\<dots> \<longleftrightarrow> ?R"
          using ns mp p rd s2 src h by (simp add: attr_chain_True)
        finally show ?thesis .
      qed
    qed
  qed
qed

text \<open>
  C1. \<open>validate_cache_info\<close> returns true exactly when the record converts to a
  namespace, the module file at the stencil's module path can be read and hashed, and the
  four attributes \<open>backend\<close>, \<open>stencil_name\<close>, \<open>stencil_version\<close> and \<open>module_shash\<close>
  are there and equal the backend id, the qualified name, the version and the hash of the
  text read. It never raises: in every other case (an exception while locating, reading
  or hashing the module file, a key that is not a string, a missing attribute, a value
  of another type) it returns false.
\<close>

theorem validate_cache_info_iff:
  "(fst (validate_cache_info ext b sid cache_info s) = Inr True \<longleftrightarrow>
     (\<exists>ns p s1 source h.
        simple_namespace cache_info = Inr ns \<and>
        get_stencil_module_path ext b sid s = (Inr p, s1) \<and>
        open_read p s1 = (Inr source, s1) \<and>
        shash ext source = Inr h \<and>
        getattr ns ''backend'' = Inr (PStr b) \<and>
        getattr ns ''stencil_name'' = Inr (PStr (qualified_name sid)) \<and>
        getattr ns ''stencil_version'' = Inr (PStr (version sid)) \<and>
        getattr ns ''module_shash'' = Inr (PStr h)))
   \<and> (fst (validate_cache_info ext b sid cache_info s) = Inr True
        \<or> fst (validate_cache_info ext b sid cache_info s) = Inr False)"
  using validate_cache_info_True [of ext b sid cache_info s]
    io_try_total [of _ False s]
  unfolding validate_cache_info_def by blast

theorem validate_cache_info_iff_witness:
  "\<exists>ns p s1 source h.
     simple_namespace example_record = Inr ns \<and>
     get_stencil_module_path (example_ext PNone) ''np'' example_id (example_fs ''abc'')
       = (Inr p, s1) \<and>
     open_read p s1 = (Inr source, s1) \<and>
     shash (example_ext PNone) source = Inr h \<and>
     getattr ns ''backend'' = Inr (PStr ''np'') \<and>
     getattr ns ''stencil_name'' = Inr (PStr (qualified_name example_id)) \<and>
     getattr ns ''stencil_version'' = Inr (PStr (version example_id)) \<and>
     getattr ns ''module_shash'' = Inr (PStr h)"
proof -
  have "fst (validate_cache_info (example_ext PNone) ''np'' example_id example_record
          (example_fs ''abc'')) = Inr True"
    by code_simp
  then show ?thesis
    by (rule iffD1 [OF conjunct1 [OF validate_cache_info_iff]])
qed

lemma io_bind_assoc: "io_bind (io_bind m f) g = io_bind m (\<lambda>x. io_bind (f x) g)"
  by (auto simp: io_bind_def fun_eq_iff split: prod.splits sum.splits)

lemma get_stencil_module_path_eq:
  "get_stencil_module_path ext b sid =
     io_bind (init_cache_root ext) (\<lambda>_. io_return (module_path ext b sid))"
  by (rule ext)
    (simp add: get_stencil_module_path_def get_stencil_package_path_def get_base_path_def
      init_cache_root_def module_path_def cache_root_def Let_def io_bind_def
      split: prod.splits sum.splits)

lemma get_cache_info_path_eq:
  "get_cache_info_path ext b sid =
     io_bind (init_cache_root ext) (\<lambda>_. io_return (cache_info_path ext b sid))"
  by (rule ext)
    (simp add: get_cache_info_path_def get_stencil_module_path_eq cache_info_path_def
      io_bind_def split: prod.splits sum.splits)

lemma join2_suffix: "\<exists>pre. join2 a c = pre @ c"
proof -
  have "join2 a c = c \<or> join2 a c = a @ c \<or> join2 a c = (a @ ''/'') @ c"
    by (simp add: join2_def)
  then show ?thesis by (metis append_Nil)
qed

lemma module_path_suffix: "\<exists>pre. module_path ext b sid = pre @ ''.py''"
proof -
  obtain pre where "module_path ext b sid = pre @ (get_stencil_module_name ext sid False @ ''.py'')"
    unfolding module_path_def path_join_def using join2_suffix by force
  then show ?thesis by (metis append_assoc)
qed

lemma module_path_neq_cache_info_path: "module_path ext b sid \<noteq> cache_info_path ext b sid"
proof -
  obtain pre where p: "module_path ext b sid = pre @ ''.py''"
    using module_path_suffix by blast
  show ?thesis
    by (simp add: cache_info_path_def p)
qed

lemma init_cache_root_exists:
  "path_exists (cache_root ext) s \<Longrightarrow> init_cache_root ext s = (Inr (), s)"
  by (simp add: init_cache_root_def)

lemma example_root: "path_exists (cache_root (example_ext pobj)) (example_fs src)"
  by (simp add: path_exists_def cache_root_def example_ext_def example_fs_def path_join_def
      join2_def)

lemma example_module_path:
  "module_path (example_ext pobj) ''np'' example_id = ''/c/gt/py38/np/a/m_f__v1.py''"
  by (simp add: module_path_def cache_root_def example_ext_def example_id_def path_join_def
      join2_def get_stencil_module_name_def get_stencil_class_name_def)


lemma io_try_Inl: "m s = (Inl e, s') \<Longrightarrow> io_try m d s = (Inr d, s')"
  by (simp add: io_try_def)

lemma any_bind_Inr: "m s = (Inr x, s') \<Longrightarrow> any_bind m f s = f x s'"
  by (simp add: any_bind_def)

lemma any_bind_Inl: "m s = (Inl e, s') \<Longrightarrow> any_bind m f s = (Inl e, s')"
  by (simp add: any_bind_def)

lemma io_exc_Inr: "m s = (Inr x, s') \<Longrightarrow> io_exc m s = (Inr x, s')"
  by (simp add: io_exc_def)

lemma io_exc_Inl: "m s = (Inl e, s') \<Longrightarrow> io_exc m s = (Inl (Exc e), s')"
  by (simp add: io_exc_def)

text \<open>On a body that raises exceptions of class \<open>Exception\<close> only, the two handlers agree.\<close>

lemma io_exc_io_try: "io_exc (io_try m d) = try_except_Exception (io_exc m) d"
  by (rule ext) (simp add: io_exc_def io_try_def try_except_Exception_def
      split: prod.splits sum.splits)

lemma validate_cache_info_Inr:
  "\<exists>r s1. validate_cache_info ext b sid d s = (Inr r, s1)"
  by (cases "io_bind (io_lift (simple_namespace d)) (\<lambda>ns.
        io_bind (get_stencil_module_path ext b sid) (\<lambda>module_file_name.
        io_bind (open_read module_file_name) (\<lambda>source.
        io_bind (io_lift (shash ext source)) (\<lambda>module_shash.
        io_lift
          (attr_eq_and ns ''backend'' b
          (attr_eq_and ns ''stencil_name'' (qualified_name sid)
          (attr_eq_and ns ''stencil_version'' (version sid)
          (attr_eq_and ns ''module_shash'' module_shash (Inr True))))))))) s")
    (auto simp: validate_cache_info_def io_try_def split: sum.splits)

lemma check_cache_unfold:
  "get_cache_info_path ext b sid s = (Inr p, s1) \<Longrightarrow>
   check_cache ext b sid s = check_cache_at ext b sid p s1"
  by (simp add: check_cache_def check_cache_at_def try_except_Exception_def any_bind_def
      io_exc_def)



lemma check_cache_at_file:
  assumes "st p = Some (RegFile data)"
  shows "fst (check_cache_at ext b sid p st) =
    (case pickle_loads ext data of
       Inl (Exc e) \<Rightarrow> Inr False
     | Inl (Base x) \<Rightarrow> Inl (Base x)
     | Inr (PDict d) \<Rightarrow> Inr (case fst (validate_cache_info ext b sid d st) of
                              Inr r \<Rightarrow> r | Inl e \<Rightarrow> False)
     | Inr _ \<Rightarrow> Inr False)"
proof (cases "pickle_loads ext data")
  case (Inl r)
  with assms show ?thesis
    by (cases r)
      (simp_all add: check_cache_at_def try_except_Exception_def any_bind_def io_exc_def
        any_lift_def open_read_def)
next
  case (Inr v)
  show ?thesis
  proof (cases "\<exists>d. v = PDict d")
    case True
    then obtain d where d: "v = PDict d" by blast
    obtain r s2 where "validate_cache_info ext b sid d st = (Inr r, s2)"
      using validate_cache_info_Inr by blast
    with assms Inr d show ?thesis
      by (simp add: check_cache_at_def try_except_Exception_def any_bind_def io_exc_def
          any_lift_def open_read_def assert_dict_def)
  next
    case False
    with assms Inr show ?thesis
      by (cases v)
        (simp_all add: check_cache_at_def try_except_Exception_def any_bind_def io_exc_def
          any_lift_def open_read_def assert_dict_def)
  qed
qed




text \<open>
  C5. \<open>update_cache\<close> handles no exception: one raised while reading the module file
  (\<open>FileNotFoundError\<close> when the file is missing), while building the record, while
  creating the directory, while opening the metadata file or while pickling the record is
  the result of \<open>update_cache\<close>.
\<close>

theorem update_cache_propagates:
  "(\<forall>p s1 e s2. get_stencil_module_path ext b sid s = (Inr p, s1) \<and>
        open_read p s1 = (Inl e, s2) \<longrightarrow>
        fst (update_cache ext b sid extra s) = Inl e)
   \<and> (\<forall>p s1. get_stencil_module_path ext b sid s = (Inr p, s1) \<and> s1 p = None \<longrightarrow>
        fst (update_cache ext b sid extra s) = Inl FileNotFoundError)
   \<and> (\<forall>e s1. generate_cache_info ext b sid extra s = (Inl e, s1) \<longrightarrow>
        fst (update_cache ext b sid extra s) = Inl e)
   \<and> (\<forall>info s1 p s2. generate_cache_info ext b sid extra s = (Inr info, s1) \<and>
        get_cache_info_path ext b sid s1 = (Inr p, s2) \<longrightarrow>
        (\<forall>e s3. makedirs (dirname p) s2 = (Inl e, s3) \<longrightarrow>
           fst (update_cache ext b sid extra s) = Inl e) \<and>
        (\<forall>s3 e s4. makedirs (dirname p) s2 = (Inr (), s3) \<and> open_wb p s3 = (Inl e, s4) \<longrightarrow>
           fst (update_cache ext b sid extra s) = Inl e) \<and>
        (\<forall>s3 s4 e. makedirs (dirname p) s2 = (Inr (), s3) \<and> open_wb p s3 = (Inr (), s4) \<and>
           pickle_dumps ext (PDict info) = Inl e \<longrightarrow>
           fst (update_cache ext b sid extra s) = Inl e))"
  by (auto simp: update_cache_def generate_cache_info_def pickle_dump_def io_bind_def
      open_read_def)

theorem update_cache_propagates_witness:
  "fst (update_cache (example_ext PNone) ''np'' example_id [] [''/c/gt'' \<mapsto> Dir])
     = Inl FileNotFoundError"
proof -
  let ?s = "[''/c/gt'' \<mapsto> Dir] :: fs"
  have root: "path_exists (cache_root (example_ext PNone)) ?s"
    by (simp add: path_exists_def cache_root_def example_ext_def path_join_def join2_def)
  have gp: "get_stencil_module_path (example_ext PNone) ''np'' example_id ?s
      = (Inr ''/c/gt/py38/np/a/m_f__v1.py'', ?s)"
    by (simp add: get_stencil_module_path_eq io_bind_def init_cache_root_exists root
        example_module_path)
  have missing: "?s ''/c/gt/py38/np/a/m_f__v1.py'' = None"
    by simp
  from update_cache_propagates [of "example_ext PNone" "''np''" example_id ?s "[]"]
    gp missing
  show ?thesis by blast
qed

lemma simple_namespace_Inr_iff:
  "(\<exists>ns. simple_namespace d = Inr ns) \<longleftrightarrow> list_all is_PStr (map fst d)"
  by (induction d rule: simple_namespace.induct) (auto split: sum.splits)

lemma simple_namespace_Inl: "simple_namespace d = Inl e \<Longrightarrow> e = TypeError"
  by (induction d arbitrary: e rule: simple_namespace.induct) (auto split: sum.splits)

lemma simple_namespace_map_of:
  "simple_namespace d = Inr ns \<Longrightarrow> map_of ns name = map_of d (PStr name)"
  by (induction d arbitrary: ns rule: simple_namespace.induct) (auto split: sum.splits)

lemma getattr_namespace:
  "simple_namespace d = Inr ns \<Longrightarrow>
   getattr ns name = (case map_of d (PStr name) of None \<Rightarrow> Inl AttributeError | Some v \<Rightarrow> Inr v)"
  by (simp add: getattr_def simple_namespace_map_of)

lemma io_bind_lift_Inr: "io_bind (io_lift (Inr x)) f = f x"
  by (rule ext) (simp add: io_bind_def)

lemma validate_cache_info_cong:
  assumes ok: "list_all is_PStr (map fst d) \<longleftrightarrow> list_all is_PStr (map fst d')"
    and f: "\<And>name. name \<in> {''backend'', ''stencil_name'', ''stencil_version'', ''module_shash''}
              \<Longrightarrow> map_of d (PStr name) = map_of d' (PStr name)"
  shows "validate_cache_info ext b sid d = validate_cache_info ext b sid d'"
proof (cases "list_all is_PStr (map fst d)")
  case False
  with ok have "\<not> list_all is_PStr (map fst d')" by simp
  with False obtain e e' where "simple_namespace d = Inl e" "simple_namespace d' = Inl e'"
    using simple_namespace_Inr_iff by (metis sum.exhaust_sel)
  then show ?thesis
    by (simp add: validate_cache_info_def io_try_def io_bind_def fun_eq_iff)
next
  case True
  with ok have "list_all is_PStr (map fst d')" by simp
  with True obtain ns ns' where ns: "simple_namespace d = Inr ns" "simple_namespace d' = Inr ns'"
    using simple_namespace_Inr_iff by blast
  have "getattr ns name = getattr ns' name"
    if "name \<in> {''backend'', ''stencil_name'', ''stencil_version'', ''module_shash''}" for name
    using f [OF that] ns by (simp add: getattr_namespace)
  then have "attr_eq_and ns name = attr_eq_and ns' name"
    if "name \<in> {''backend'', ''stencil_name'', ''stencil_version'', ''module_shash''}" for name
    using that by (simp add: attr_eq_and_def fun_eq_iff)
  then have "attr_eq_and ns ''backend'' = attr_eq_and ns' ''backend''"
    "attr_eq_and ns ''stencil_name'' = attr_eq_and ns' ''stencil_name''"
    "attr_eq_and ns ''stencil_version'' = attr_eq_and ns' ''stencil_version''"
    "attr_eq_and ns ''module_shash'' = attr_eq_and ns' ''module_shash''"
    by simp_all
  then show ?thesis
    using ns by (simp add: validate_cache_info_def io_bind_lift_Inr)
qed

lemma keys_update: "list_all is_PStr (map fst (AList.update (PStr k) v d)) \<longleftrightarrow> list_all is_PStr (map fst d)"
  by (induction d) auto

lemma keys_delete: "list_all is_PStr (map fst (AList.delete (PStr k) d)) \<longleftrightarrow> list_all is_PStr (map fst d)"
  by (induction d) auto

lemma dict_unpack_keys: "fst ` set (dict_unpack d extra) = fst ` set d \<union> fst ` set extra"
proof (induction extra arbitrary: d)
  case Nil
  show ?case by (simp add: dict_unpack_def)
next
  case (Cons x xs)
  obtain k v where x: "x = (k, v)" by (cases x)
  have "dict_unpack d (x # xs) = dict_unpack (AList.update k v d) xs"
    by (simp add: dict_unpack_def x)
  then show ?case
    using Cons.IH [of "AList.update k v d"] by (simp add: AList.dom_update x)
qed

text \<open>
  C10. Validation does not read \<open>gt4py_version\<close>: giving the key another value (or
  adding it) and removing it leave the result of \<open>validate_cache_info\<close>, and the store,
  as they were. Every record that \<open>generate_cache_info\<close> builds has the key.
\<close>

theorem validate_ignores_gt4py_version:
  "validate_cache_info ext b sid (AList.update (PStr ''gt4py_version'') v cache_info) s
     = validate_cache_info ext b sid cache_info s
   \<and> validate_cache_info ext b sid (AList.delete (PStr ''gt4py_version'') cache_info) s
     = validate_cache_info ext b sid cache_info s
   \<and> (\<forall>info s1. generate_cache_info ext b sid extra s = (Inr info, s1) \<longrightarrow>
        PStr ''gt4py_version'' \<in> fst ` set info)"
proof (intro conjI allI impI)
  have "validate_cache_info ext b sid (AList.update (PStr ''gt4py_version'') v cache_info)
     = validate_cache_info ext b sid cache_info"
    by (rule validate_cache_info_cong) (auto simp: keys_update AList.update_conv')
  then show "validate_cache_info ext b sid (AList.update (PStr ''gt4py_version'') v cache_info) s
     = validate_cache_info ext b sid cache_info s" by simp
  have "validate_cache_info ext b sid (AList.delete (PStr ''gt4py_version'') cache_info)
     = validate_cache_info ext b sid cache_info"
    by (rule validate_cache_info_cong) (auto simp: keys_delete AList.delete_conv')
  then show "validate_cache_info ext b sid (AList.delete (PStr ''gt4py_version'') cache_info) s
     = validate_cache_info ext b sid cache_info s" by simp
next
  fix info s1
  assume "generate_cache_info ext b sid extra s = (Inr info, s1)"
  then obtain d where "info = dict_unpack ((PStr ''gt4py_version'', PStr (gt_version ext)) # d) extra"
    by (auto simp: generate_cache_info_def io_bind_def split: prod.splits sum.splits)
  then show "PStr ''gt4py_version'' \<in> fst ` set info"
    by (simp add: dict_unpack_keys)
qed

theorem validate_ignores_gt4py_version_witness:
  "validate_cache_info (example_ext PNone) ''np'' example_id
       (AList.update (PStr ''gt4py_version'') (PStr ''9.9'') example_record) (example_fs ''abc'')
     = validate_cache_info (example_ext PNone) ''np'' example_id example_record (example_fs ''abc'')
   \<and> PStr ''gt4py_version'' \<in> fst ` set example_record"
proof -
  have gp: "get_stencil_module_path (example_ext PNone) ''np'' example_id (example_fs ''abc'')
      = (Inr ''/c/gt/py38/np/a/m_f__v1.py'', example_fs ''abc'')"
    by (simp add: get_stencil_module_path_eq io_bind_def init_cache_root_exists example_root
        example_module_path)
  have rd: "open_read ''/c/gt/py38/np/a/m_f__v1.py'' (example_fs ''abc'')
      = (Inr ''abc'', example_fs ''abc'')"
    by (simp add: open_read_def example_fs_def)
  have gen: "generate_cache_info (example_ext PNone) ''np'' example_id [] (example_fs ''abc'')
      = (Inr example_record, example_fs ''abc'')"
    by (simp add: generate_cache_info_def io_bind_def gp rd)
      (simp add: example_ext_def example_id_def example_record_def dict_unpack_def)
  from validate_ignores_gt4py_version
    [of "example_ext PNone" "''np''" example_id "PStr ''9.9''" example_record
      "example_fs ''abc''" "[]"] gen
  show ?thesis by blast
qed

lemma dict_unpack_map_of:
  "distinct (map fst extra) \<Longrightarrow>
   map_of (dict_unpack d extra) k = (case map_of extra k of Some v \<Rightarrow> Some v | None \<Rightarrow> map_of d k)"
proof (induction extra arbitrary: d)
  case Nil
  show ?case by (simp add: dict_unpack_def)
next
  case (Cons x xs)
  obtain k' v where x: "x = (k', v)" by (cases x)
  have step: "dict_unpack d (x # xs) = dict_unpack (AList.update k' v d) xs"
    by (simp add: dict_unpack_def x)
  from Cons.prems have d: "distinct (map fst xs)" and nk: "k' \<notin> fst ` set xs"
    by (auto simp: x)
  from nk have none: "map_of xs k' = None"
    by (simp add: map_of_eq_None_iff)
  show ?case
    unfolding step Cons.IH [OF d]
    by (cases "k = k'") (simp_all add: x none AList.update_conv' split: option.splits)
qed

lemma init_cache_root_success:
  assumes md: "\<forall>p s s'. make_dir ext p s = (Inr (), s') \<longrightarrow> path_exists p s'"
    and i: "init_cache_root ext s = (Inr (), s1)"
  shows "path_exists (cache_root ext) s1"
  using i md by (auto simp: init_cache_root_def split: if_splits)

lemma update_cache_success:
  assumes md: "\<forall>p s s'. make_dir ext p s = (Inr (), s') \<longrightarrow> path_exists p s'"
    and upd: "fst (update_cache ext b sid extra s) = Inr ()"
  shows "\<exists>src h data.
           path_exists (cache_root ext) (snd (update_cache ext b sid extra s)) \<and>
           snd (update_cache ext b sid extra s) (module_path ext b sid) = Some (RegFile src) \<and>
           shash ext src = Inr h \<and>
           pickle_dumps ext (PDict (dict_unpack (std_info ext b sid h) extra)) = Inr data \<and>
           snd (update_cache ext b sid extra s) (cache_info_path ext b sid) = Some (RegFile data)"
proof -
  let ?mp = "module_path ext b sid" and ?cp = "cache_info_path ext b sid"
  obtain r0 s1 where i: "init_cache_root ext s = (r0, s1)"
    by (cases "init_cache_root ext s")
  have r0: "r0 = Inr ()"
    using upd i
    by (cases r0) (simp_all add: update_cache_def generate_cache_info_def
        get_stencil_module_path_eq io_bind_def)
  have root1: "path_exists (cache_root ext) s1"
    using i r0 init_cache_root_success [OF md] by blast
  have i1: "init_cache_root ext s1 = (Inr (), s1)"
    using root1 by (rule init_cache_root_exists)
  have gmp: "get_stencil_module_path ext b sid s = (Inr ?mp, s1)"
    using i r0 by (simp add: get_stencil_module_path_eq io_bind_def)
  have gcp: "get_cache_info_path ext b sid s1 = (Inr ?cp, s1)"
    using i1 by (simp add: get_cache_info_path_eq io_bind_def)
  obtain src where src: "s1 ?mp = Some (RegFile src)"
    using upd gmp
    by (auto simp: update_cache_def generate_cache_info_def io_bind_def open_read_def
        split: option.splits fnode.splits)
  then have rd: "open_read ?mp s1 = (Inr src, s1)"
    by (simp add: open_read_def)
  obtain h where h: "shash ext src = Inr h"
    using upd gmp rd
    by (cases "shash ext src")
      (simp_all add: update_cache_def generate_cache_info_def io_bind_def)
  let ?info = "dict_unpack (std_info ext b sid h) extra"
  have gen: "generate_cache_info ext b sid extra s = (Inr ?info, s1)"
    using gmp rd h by (simp add: generate_cache_info_def io_bind_def std_info_def)
  obtain r2 s2 where mk: "makedirs (dirname ?cp) s1 = (r2, s2)"
    by (cases "makedirs (dirname ?cp) s1")
  have r2: "r2 = Inr ()"
    using upd gen gcp mk by (cases r2) (simp_all add: update_cache_def io_bind_def)
  have s2: "\<And>p. s1 p \<noteq> None \<Longrightarrow> s2 p = s1 p"
    using mk r2 by (auto simp: makedirs_def split: option.splits fnode.splits if_splits)
  obtain r3 s3 where op: "open_wb ?cp s2 = (r3, s3)"
    by (cases "open_wb ?cp s2")
  have r3: "r3 = Inr ()"
    using upd gen gcp mk r2 op by (cases r3) (simp_all add: update_cache_def io_bind_def)
  have s3: "s3 = s2(?cp \<mapsto> RegFile [])"
    using op r3 by (auto simp: open_wb_def split: option.splits fnode.splits)
  obtain data where data: "pickle_dumps ext (PDict ?info) = Inr data"
    using upd gen gcp mk r2 op r3
    by (cases "pickle_dumps ext (PDict ?info)")
      (simp_all add: update_cache_def io_bind_def pickle_dump_def)
  have fin: "snd (update_cache ext b sid extra s) = s2(?cp \<mapsto> RegFile data)"
    using gen gcp mk r2 op r3 s3 data
    by (simp add: update_cache_def io_bind_def pickle_dump_def write_file_def)
  have neq: "?mp \<noteq> ?cp" by (rule module_path_neq_cache_info_path)
  have "path_exists (cache_root ext) (s2(?cp \<mapsto> RegFile data))"
    using root1 s2 [of "cache_root ext"] by (simp add: path_exists_def)
  moreover have "(s2(?cp \<mapsto> RegFile data)) ?mp = Some (RegFile src)"
    using src s2 [of ?mp] neq by simp
  ultimately show ?thesis
    using h data fin by auto
qed

lemma check_cache_reads:
  assumes root: "path_exists (cache_root ext) s"
    and cp: "s (cache_info_path ext b sid) = Some (RegFile data)"
    and ld: "pickle_loads ext data = Inr (PDict info)"
  shows "fst (check_cache ext b sid s) = Inr True \<longleftrightarrow>
         fst (validate_cache_info ext b sid info s) = Inr True"
    and "fst (check_cache ext b sid s) = Inr True \<or> fst (check_cache ext b sid s) = Inr False"
proof -
  have gcp: "get_cache_info_path ext b sid s = (Inr (cache_info_path ext b sid), s)"
    using root by (simp add: get_cache_info_path_eq io_bind_def init_cache_root_exists)
  obtain r s1 where v: "validate_cache_info ext b sid info s = (Inr r, s1)"
    using validate_cache_info_Inr by blast
  have f: "fst (check_cache ext b sid s) = Inr r"
    unfolding check_cache_unfold [OF gcp]
      check_cache_at_file [where st = s and p = "cache_info_path ext b sid", OF cp]
    using ld v by simp
  show "fst (check_cache ext b sid s) = Inr True \<longleftrightarrow>
         fst (validate_cache_info ext b sid info s) = Inr True"
    using f v by simp
  show "fst (check_cache ext b sid s) = Inr True \<or> fst (check_cache ext b sid s) = Inr False"
    using f by (cases r) simp_all
qed

lemma validate_cache_info_at:
  assumes root: "path_exists (cache_root ext) s"
    and mp: "s (module_path ext b sid) = Some (RegFile src)"
  shows "fst (validate_cache_info ext b sid info s) = Inr True \<longleftrightarrow>
     (\<exists>h. shash ext src = Inr h \<and>
        list_all is_PStr (map fst info) \<and>
        map_of info (PStr ''backend'') = Some (PStr b) \<and>
        map_of info (PStr ''stencil_name'') = Some (PStr (qualified_name sid)) \<and>
        map_of info (PStr ''stencil_version'') = Some (PStr (version sid)) \<and>
        map_of info (PStr ''module_shash'') = Some (PStr h))" (is "?L \<longleftrightarrow> ?R")
proof -
  have gmp: "get_stencil_module_path ext b sid s = (Inr (module_path ext b sid), s)"
    using root by (simp add: get_stencil_module_path_eq io_bind_def init_cache_root_exists)
  have rd: "open_read (module_path ext b sid) s = (Inr src, s)"
    using mp by (simp add: open_read_def)
  have "?L \<longleftrightarrow> (\<exists>ns h. simple_namespace info = Inr ns \<and> shash ext src = Inr h \<and>
        getattr ns ''backend'' = Inr (PStr b) \<and>
        getattr ns ''stencil_name'' = Inr (PStr (qualified_name sid)) \<and>
        getattr ns ''stencil_version'' = Inr (PStr (version sid)) \<and>
        getattr ns ''module_shash'' = Inr (PStr h))"
    unfolding validate_cache_info_True using gmp rd by auto
  also have "\<dots> \<longleftrightarrow> ?R"
  proof
    assume "\<exists>ns h. simple_namespace info = Inr ns \<and> shash ext src = Inr h \<and>
        getattr ns ''backend'' = Inr (PStr b) \<and>
        getattr ns ''stencil_name'' = Inr (PStr (qualified_name sid)) \<and>
        getattr ns ''stencil_version'' = Inr (PStr (version sid)) \<and>
        getattr ns ''module_shash'' = Inr (PStr h)"
    then obtain ns h where ns: "simple_namespace info = Inr ns" and h: "shash ext src = Inr h"
      and a: "getattr ns ''backend'' = Inr (PStr b)"
        "getattr ns ''stencil_name'' = Inr (PStr (qualified_name sid))"
        "getattr ns ''stencil_version'' = Inr (PStr (version sid))"
        "getattr ns ''module_shash'' = Inr (PStr h)"
      by blast
    have "list_all is_PStr (map fst info)"
      using ns simple_namespace_Inr_iff by blast
    with a h show ?R
      by (auto simp: getattr_namespace [OF ns] split: option.splits)
  next
    assume ?R
    then obtain h where h: "shash ext src = Inr h" and k: "list_all is_PStr (map fst info)"
      and a: "map_of info (PStr ''backend'') = Some (PStr b)"
        "map_of info (PStr ''stencil_name'') = Some (PStr (qualified_name sid))"
        "map_of info (PStr ''stencil_version'') = Some (PStr (version sid))"
        "map_of info (PStr ''module_shash'') = Some (PStr h)"
      by blast
    from k obtain ns where ns: "simple_namespace info = Inr ns"
      using simple_namespace_Inr_iff by blast
    show "\<exists>ns h. simple_namespace info = Inr ns \<and> shash ext src = Inr h \<and>
        getattr ns ''backend'' = Inr (PStr b) \<and>
        getattr ns ''stencil_name'' = Inr (PStr (qualified_name sid)) \<and>
        getattr ns ''stencil_version'' = Inr (PStr (version sid)) \<and>
        getattr ns ''module_shash'' = Inr (PStr h)"
      using ns h a by (auto simp: getattr_namespace [OF ns])
  qed
  finally show ?thesis .
qed

lemma list_all_keys_unpack:
  "list_all is_PStr (map fst (dict_unpack (std_info ext b sid h) extra))
     \<longleftrightarrow> list_all is_PStr (map fst extra)"
proof -
  have a: "list_all is_PStr (map fst d) \<longleftrightarrow> fst ` set d \<subseteq> Collect is_PStr" for d :: pydict
    by (auto simp: list_all_iff)
  show ?thesis
    unfolding a dict_unpack_keys by (simp add: std_info_def)
qed

lemma unpack_field:
  assumes "distinct (map fst extra)"
  shows "map_of (dict_unpack d extra) k = Some v \<longleftrightarrow>
         (map_of extra k = Some v \<or> map_of extra k = None \<and> map_of d k = Some v)"
  by (simp add: dict_unpack_map_of [OF assms] split: option.splits)

text \<open>
  C2 (amended). Let the pickle read back what it wrote, \<open>make_dir\<close> create the
  directory it is asked for, and \<open>update_cache\<close> return for the extra info \<open>extra\<close> (a
  dict: its keys are distinct). In the store it leaves, the module file is read and hashed
  as before, and \<open>check_cache\<close> returns true exactly when every key of \<open>extra\<close> is a
  string and \<open>extra\<close> gives none of the keys \<open>backend\<close>, \<open>stencil_name\<close>,
  \<open>stencil_version\<close>, \<open>module_shash\<close> a value other than the standard one.
\<close>

theorem update_then_check:
  assumes rt: "\<forall>v data. pickle_dumps ext v = Inr data \<longrightarrow> pickle_loads ext data = Inr v"
    and md: "\<forall>p s s'. make_dir ext p s = (Inr (), s') \<longrightarrow> path_exists p s'"
    and upd: "fst (update_cache ext b sid extra s) = Inr ()"
    and dist: "distinct (map fst extra)"
  shows "\<exists>p src h.
     get_stencil_module_path ext b sid (snd (update_cache ext b sid extra s))
       = (Inr p, snd (update_cache ext b sid extra s)) \<and>
     open_read p (snd (update_cache ext b sid extra s))
       = (Inr src, snd (update_cache ext b sid extra s)) \<and>
     shash ext src = Inr h \<and>
     (fst (check_cache ext b sid (snd (update_cache ext b sid extra s))) = Inr True \<longleftrightarrow>
        list_all is_PStr (map fst extra) \<and>
        map_of extra (PStr ''backend'') \<in> {None, Some (PStr b)} \<and>
        map_of extra (PStr ''stencil_name'') \<in> {None, Some (PStr (qualified_name sid))} \<and>
        map_of extra (PStr ''stencil_version'') \<in> {None, Some (PStr (version sid))} \<and>
        map_of extra (PStr ''module_shash'') \<in> {None, Some (PStr h)})"
proof -
  let ?s = "snd (update_cache ext b sid extra s)"
  obtain src h data where root: "path_exists (cache_root ext) ?s"
    and mp: "?s (module_path ext b sid) = Some (RegFile src)"
    and h: "shash ext src = Inr h"
    and dump: "pickle_dumps ext (PDict (dict_unpack (std_info ext b sid h) extra)) = Inr data"
    and cp: "?s (cache_info_path ext b sid) = Some (RegFile data)"
    using update_cache_success [of ext b sid extra s] md upd by blast
  let ?info = "dict_unpack (std_info ext b sid h) extra"
  have ld: "pickle_loads ext data = Inr (PDict ?info)"
    using dump rt by blast
  have gmp: "get_stencil_module_path ext b sid ?s = (Inr (module_path ext b sid), ?s)"
    using root by (simp add: get_stencil_module_path_eq io_bind_def init_cache_root_exists)
  have rd: "open_read (module_path ext b sid) ?s = (Inr src, ?s)"
    using mp by (simp add: open_read_def)
  have "fst (check_cache ext b sid ?s) = Inr True \<longleftrightarrow>
        list_all is_PStr (map fst extra) \<and>
        map_of extra (PStr ''backend'') \<in> {None, Some (PStr b)} \<and>
        map_of extra (PStr ''stencil_name'') \<in> {None, Some (PStr (qualified_name sid))} \<and>
        map_of extra (PStr ''stencil_version'') \<in> {None, Some (PStr (version sid))} \<and>
        map_of extra (PStr ''module_shash'') \<in> {None, Some (PStr h)}"
    unfolding check_cache_reads(1) [OF root cp ld] validate_cache_info_at [OF root mp]
      list_all_keys_unpack unpack_field [OF dist]
    using h by (auto simp: std_info_def)
  with gmp rd h show ?thesis by blast
qed

text \<open>
  C3 (amended). After a successful \<open>update_cache\<close>, replacing the text \<open>src\<close> of the
  module file by a text \<open>src'\<close> with another hash makes \<open>check_cache\<close> return false,
  provided \<open>extra\<close> did not store the hash of \<open>src'\<close> under \<open>module_shash\<close>.
\<close>

theorem tamper_detected:
  assumes rt: "\<forall>v data. pickle_dumps ext v = Inr data \<longrightarrow> pickle_loads ext data = Inr v"
    and md: "\<forall>p s s'. make_dir ext p s = (Inr (), s') \<longrightarrow> path_exists p s'"
    and upd: "fst (update_cache ext b sid extra s) = Inr ()"
    and dist: "distinct (map fst extra)"
    and gmp: "fst (get_stencil_module_path ext b sid (snd (update_cache ext b sid extra s))) = Inr p"
    and rd: "fst (open_read p (snd (update_cache ext b sid extra s))) = Inr src"
    and changed: "shash ext src' \<noteq> shash ext src"
    and noshadow: "\<forall>h'. shash ext src' = Inr h' \<longrightarrow>
                     map_of extra (PStr ''module_shash'') \<noteq> Some (PStr h')"
  shows "fst (check_cache ext b sid ((snd (update_cache ext b sid extra s))(p \<mapsto> RegFile src')))
           = Inr False"
proof -
  let ?s = "snd (update_cache ext b sid extra s)"
  obtain src0 h data where root: "path_exists (cache_root ext) ?s"
    and mp: "?s (module_path ext b sid) = Some (RegFile src0)"
    and h: "shash ext src0 = Inr h"
    and dump: "pickle_dumps ext (PDict (dict_unpack (std_info ext b sid h) extra)) = Inr data"
    and cp: "?s (cache_info_path ext b sid) = Some (RegFile data)"
    using update_cache_success [of ext b sid extra s] md upd by blast
  let ?info = "dict_unpack (std_info ext b sid h) extra"
  have ld: "pickle_loads ext data = Inr (PDict ?info)"
    using dump rt by blast
  have p: "p = module_path ext b sid"
    using gmp root by (simp add: get_stencil_module_path_eq io_bind_def init_cache_root_exists)
  have src: "src0 = src"
    using rd mp by (simp add: p open_read_def)
  let ?t = "?s(p \<mapsto> RegFile src')"
  have root': "path_exists (cache_root ext) ?t"
    using root by (simp add: path_exists_def)
  have mp': "?t (module_path ext b sid) = Some (RegFile src')"
    by (simp add: p)
  have cp': "?t (cache_info_path ext b sid) = Some (RegFile data)"
    using cp module_path_neq_cache_info_path [of ext b sid] by (simp add: p)
  have "fst (check_cache ext b sid ?t) \<noteq> Inr True"
    unfolding check_cache_reads(1) [OF root' cp' ld] validate_cache_info_at [OF root' mp']
      unpack_field [OF dist]
    using h changed noshadow by (auto simp: std_info_def src)
  moreover have "fst (check_cache ext b sid ?t) = Inr True \<or> fst (check_cache ext b sid ?t) = Inr False"
    by (rule check_cache_reads(2) [OF root' cp' ld])
  ultimately show ?thesis by blast
qed

lemma example_rt:
  "\<forall>v data. pickle_dumps (example_ext pobj) v = Inr data \<longrightarrow>
     pickle_loads (example_ext pobj) data = Inr v"
  by (auto simp: example_ext_def split: if_splits)

lemma example_md:
  "\<forall>p s s'. make_dir (example_ext pobj) p s = (Inr (), s') \<longrightarrow> path_exists p s'"
  by (auto simp: example_ext_def path_exists_def)

theorem update_then_check_witness:
  "fst (update_cache (example_ext (PDict example_record)) ''np'' example_id []
         (example_fs ''abc'')) = Inr () \<and>
   fst (check_cache (example_ext (PDict example_record)) ''np'' example_id
         (snd (update_cache (example_ext (PDict example_record)) ''np'' example_id []
           (example_fs ''abc'')))) = Inr True"
proof -
  have upd: "fst (update_cache (example_ext (PDict example_record)) ''np'' example_id []
         (example_fs ''abc'')) = Inr ()"
    by code_simp
  have dist: "distinct (map fst ([] :: pydict))" by simp
  from update_then_check [OF example_rt example_md upd dist]
  obtain h where
    "fst (check_cache (example_ext (PDict example_record)) ''np'' example_id
       (snd (update_cache (example_ext (PDict example_record)) ''np'' example_id []
          (example_fs ''abc'')))) = Inr True \<longleftrightarrow>
     list_all is_PStr (map fst ([] :: pydict)) \<and>
     map_of ([] :: pydict) (PStr ''backend'') \<in> {None, Some (PStr ''np'')} \<and>
     map_of ([] :: pydict) (PStr ''stencil_name'') \<in> {None, Some (PStr (qualified_name example_id))} \<and>
     map_of ([] :: pydict) (PStr ''stencil_version'') \<in> {None, Some (PStr (version example_id))} \<and>
     map_of ([] :: pydict) (PStr ''module_shash'') \<in> {None, Some (PStr h)}"
    by blast
  then have "fst (check_cache (example_ext (PDict example_record)) ''np'' example_id
       (snd (update_cache (example_ext (PDict example_record)) ''np'' example_id []
          (example_fs ''abc'')))) = Inr True"
    by simp
  with upd show ?thesis by simp
qed

text \<open>
  C2 as stated fails: an extra info that overrides \<open>backend\<close> is written into the
  record, and the check that follows the update returns false.
\<close>

theorem update_then_check_counterexample:
  "fst (update_cache (example_ext (PDict (shadow_record ''backend'' ''other''))) ''np'' example_id
         [(PStr ''backend'', PStr ''other'')] (example_fs ''abc'')) = Inr () \<and>
   fst (check_cache (example_ext (PDict (shadow_record ''backend'' ''other''))) ''np'' example_id
         (snd (update_cache (example_ext (PDict (shadow_record ''backend'' ''other''))) ''np''
            example_id [(PStr ''backend'', PStr ''other'')] (example_fs ''abc'')))) = Inr False"
  by code_simp

theorem tamper_detected_witness:
  "fst (check_cache (example_ext (PDict example_record)) ''np'' example_id
         ((snd (update_cache (example_ext (PDict example_record)) ''np'' example_id []
           (example_fs ''abc'')))(''/c/gt/py38/np/a/m_f__v1.py'' \<mapsto> RegFile ''xyz''))) = Inr False"
proof -
  let ?E = "example_ext (PDict example_record)"
  let ?s = "snd (update_cache ?E ''np'' example_id [] (example_fs ''abc''))"
  have upd: "fst (update_cache ?E ''np'' example_id [] (example_fs ''abc'')) = Inr ()"
    by code_simp
  have dist: "distinct (map fst ([] :: pydict))" by simp
  have gmp: "fst (get_stencil_module_path ?E ''np'' example_id ?s) = Inr ''/c/gt/py38/np/a/m_f__v1.py''"
    by code_simp
  have rd: "fst (open_read ''/c/gt/py38/np/a/m_f__v1.py'' ?s) = Inr ''abc''"
    by code_simp
  have ch: "shash ?E ''xyz'' \<noteq> shash ?E ''abc''"
    by code_simp
  show ?thesis
    by (rule tamper_detected [OF example_rt example_md upd dist gmp rd ch]) simp
qed

text \<open>
  C3 as stated fails: with the hash of the later text supplied as \<open>module_shash\<close> in
  the extra info, the check still returns true after the module file was changed.
\<close>

theorem tamper_detected_counterexample:
  "fst (update_cache (example_ext (PDict (shadow_record ''module_shash'' ''zyx''))) ''np''
         example_id [(PStr ''module_shash'', PStr ''zyx'')] (example_fs ''abc'')) = Inr () \<and>
   shash (example_ext (PDict (shadow_record ''module_shash'' ''zyx''))) ''xyz''
     \<noteq> shash (example_ext (PDict (shadow_record ''module_shash'' ''zyx''))) ''abc'' \<and>
   fst (check_cache (example_ext (PDict (shadow_record ''module_shash'' ''zyx''))) ''np'' example_id
         ((snd (update_cache (example_ext (PDict (shadow_record ''module_shash'' ''zyx''))) ''np''
            example_id [(PStr ''module_shash'', PStr ''zyx'')] (example_fs ''abc'')))
          (''/c/gt/py38/np/a/m_f__v1.py'' \<mapsto> RegFile ''xyz''))) = Inr True"
  by code_simp

section \<open>Properties of the upcasting pass\<close>

lemma obj_update_node:
  "obj (update_node node changed copy) = (if changed then copy else node)"
  by (simp add: update_node_def)

lemma dtype_upcast_node [simp]: "dtype (upcast_node t x) = t"
  by (simp add: upcast_node_def)

lemma upcast_node_same [simp]: "dtype x = t \<Longrightarrow> upcast_node t x = x"
  by (simp add: upcast_node_def)

lemma upcast_nodes_pair:
  "upcast_nodes [a, b] =
     Inr [upcast_node (max (dtype a) (dtype b)) a, upcast_node (max (dtype a) (dtype b)) b]"
  by (simp add: upcast_nodes_def)

lemma visited_BinaryOp:
  "visited (BinaryOp op l r d) =
     (case visited l of Inl e \<Rightarrow> Inl e | Inr a \<Rightarrow>
     (case visited r of Inl e \<Rightarrow> Inl e | Inr b \<Rightarrow>
        Inr (BinaryOp op (upcast_node (max (dtype a) (dtype b)) a)
               (upcast_node (max (dtype a) (dtype b)) b) d)))"
  by (auto simp: visited_def upcast_nodes_pair obj_update_node split: sum.splits)

lemma visited_TernaryOp:
  "visited (TernaryOp c t f d) =
     (case visited t of Inl e \<Rightarrow> Inl e | Inr a \<Rightarrow>
     (case visited f of Inl e \<Rightarrow> Inl e | Inr b \<Rightarrow>
     (case visited c of Inl e \<Rightarrow> Inl e | Inr c' \<Rightarrow>
        Inr (TernaryOp c' (upcast_node (max (dtype a) (dtype b)) a)
               (upcast_node (max (dtype a) (dtype b)) b) d))))"
  by (auto simp: visited_def upcast_nodes_pair obj_update_node split: sum.splits)

lemma visited_NativeFuncCall:
  "visited (NativeFuncCall func args d) =
     (case visit_list args of Inl e \<Rightarrow> Inl e | Inr args' \<Rightarrow>
     (case upcast_nodes args' of Inl e \<Rightarrow> Inl e | Inr args'' \<Rightarrow>
        Inr (NativeFuncCall func args'' d)))"
  by (auto simp: visited_def obj_update_node split: sum.splits)

lemma visited_Cast:
  "visited (Cast d x) = (case visited x of Inl e \<Rightarrow> Inl e | Inr a \<Rightarrow> Inr (Cast d a))"
  by (auto simp: visited_def obj_update_node split: sum.splits)

lemma visited_OtherExpr:
  "visited (OtherExpr kind children d) =
     (case visit_list children of Inl e \<Rightarrow> Inl e
      | Inr children' \<Rightarrow> Inr (OtherExpr kind children' d))"
  by (auto simp: visited_def obj_update_node split: sum.splits)

lemma visit_list_Cons:
  "visit_list (x # xs) =
     (case visited x of Inl e \<Rightarrow> Inl e | Inr a \<Rightarrow>
     (case visit_list xs of Inl e \<Rightarrow> Inl e | Inr as \<Rightarrow> Inr (a # as)))"
  by (auto simp: visited_def split: sum.splits)

lemmas visited_simps = visited_BinaryOp visited_TernaryOp visited_NativeFuncCall visited_Cast
  visited_OtherExpr

lemma visited_upcast_node:
  "visited x = Inr x \<Longrightarrow> visited (upcast_node t x) = Inr (upcast_node t x)"
  by (simp add: upcast_node_def visited_Cast)

lemma visit_list_Nil: "visit_list [] = Inr []"
  by simp

declare visit.simps [simp del] visit_list.simps [simp del]

declare visit_list_Nil [simp]

lemma visit_list_pointwise:
  assumes "\<And>x. x \<in> set xs \<Longrightarrow>
             \<forall>x'. visited x = Inr x' \<longrightarrow> dtype x' = dtype x \<and> visited x' = Inr x'"
    and "visit_list xs = Inr xs'"
  shows "map dtype xs' = map dtype xs \<and> (\<forall>x' \<in> set xs'. visited x' = Inr x')"
  using assms
proof (induction xs arbitrary: xs')
  case Nil
  then show ?case by simp
next
  case (Cons x xs)
  from Cons.prems(2) obtain a as where a: "visited x = Inr a" and as: "visit_list xs = Inr as"
    and xs': "xs' = a # as"
    by (auto simp: visit_list_Cons split: sum.splits)
  have "dtype a = dtype x \<and> visited a = Inr a"
    using Cons.prems(1) [of x] a by simp
  moreover have "map dtype as = map dtype xs \<and> (\<forall>x' \<in> set as. visited x' = Inr x')"
  proof (rule Cons.IH [OF _ as])
    fix y assume "y \<in> set xs"
    then show "\<forall>x'. visited y = Inr x' \<longrightarrow> dtype x' = dtype y \<and> visited x' = Inr x'"
      by (intro Cons.prems(1)) simp
  qed
  ultimately show ?case by (simp add: xs')
qed

lemma visit_list_fixed:
  "(\<forall>x \<in> set xs. visited x = Inr x) \<Longrightarrow> visit_list xs = Inr xs"
  by (induction xs) (simp_all add: visit_list_Cons)

lemma py_max_const:
  "xs \<noteq> [] \<Longrightarrow> \<forall>x \<in> set xs. x = t \<Longrightarrow> py_max xs = Inr t"
proof -
  have "\<forall>x \<in> set ys. x = t \<Longrightarrow> foldl max t ys = t" for ys :: "'a list"
    by (induction ys) simp_all
  then show "xs \<noteq> [] \<Longrightarrow> \<forall>x \<in> set xs. x = t \<Longrightarrow> py_max xs = Inr t"
    by (cases xs) simp_all
qed

lemma upcast_nodes_again:
  assumes "upcast_nodes xs = Inr ys"
  shows "upcast_nodes ys = Inr ys"
proof -
  from assms obtain t where t: "py_max (map dtype xs) = Inr t"
    and ys: "ys = map (upcast_node t) xs"
    by (auto simp: upcast_nodes_def split: sum.splits)
  from t have ne: "xs \<noteq> []" by (cases xs) simp_all
  have "py_max (map dtype ys) = Inr t"
    by (rule py_max_const) (simp_all add: ys ne)
  then show ?thesis
    by (simp add: upcast_nodes_def ys)
qed

lemma upcast_nodes_visited:
  assumes "upcast_nodes xs = Inr ys" and "\<forall>x \<in> set xs. visited x = Inr x"
  shows "\<forall>y \<in> set ys. visited y = Inr y"
  using assms by (auto simp: upcast_nodes_def visited_upcast_node split: sum.splits)

lemma visited_idem:
  "\<forall>x'. visited x = Inr x' \<longrightarrow> dtype x' = dtype x \<and> visited x' = Inr x'"
proof (induction x)
  case (BinaryOp op l r d)
  show ?case
  proof (intro allI impI)
    fix x' assume v: "visited (BinaryOp op l r d) = Inr x'"
    then obtain a b where a: "visited l = Inr a" and b: "visited r = Inr b"
      and x': "x' = BinaryOp op (upcast_node (max (dtype a) (dtype b)) a)
                      (upcast_node (max (dtype a) (dtype b)) b) d"
      by (auto simp: visited_BinaryOp split: sum.splits)
    have "visited a = Inr a" "visited b = Inr b"
      using BinaryOp.IH a b by simp_all
    then show "dtype x' = dtype (BinaryOp op l r d) \<and> visited x' = Inr x'"
      by (simp add: x' visited_BinaryOp visited_upcast_node)
  qed
next
  case (TernaryOp c t f d)
  show ?case
  proof (intro allI impI)
    fix x' assume v: "visited (TernaryOp c t f d) = Inr x'"
    then obtain a b c' where a: "visited t = Inr a" and b: "visited f = Inr b"
      and c': "visited c = Inr c'"
      and x': "x' = TernaryOp c' (upcast_node (max (dtype a) (dtype b)) a)
                      (upcast_node (max (dtype a) (dtype b)) b) d"
      by (auto simp: visited_TernaryOp split: sum.splits)
    have "visited a = Inr a" "visited b = Inr b" "visited c' = Inr c'"
      using TernaryOp.IH a b c' by simp_all
    then show "dtype x' = dtype (TernaryOp c t f d) \<and> visited x' = Inr x'"
      by (simp add: x' visited_TernaryOp visited_upcast_node)
  qed
next
  case (NativeFuncCall func args d)
  show ?case
  proof (intro allI impI)
    fix x' assume v: "visited (NativeFuncCall func args d) = Inr x'"
    then obtain args' args'' where l: "visit_list args = Inr args'"
      and u: "upcast_nodes args' = Inr args''" and x': "x' = NativeFuncCall func args'' d"
      by (auto simp: visited_NativeFuncCall split: sum.splits)
    have "\<forall>y \<in> set args'. visited y = Inr y"
      using visit_list_pointwise [OF _ l] NativeFuncCall.IH by blast
    then have "\<forall>y \<in> set args''. visited y = Inr y"
      using upcast_nodes_visited [OF u] by blast
    then have "visit_list args'' = Inr args''"
      by (rule visit_list_fixed)
    then show "dtype x' = dtype (NativeFuncCall func args d) \<and> visited x' = Inr x'"
      by (simp add: x' visited_NativeFuncCall upcast_nodes_again [OF u])
  qed
next
  case (Cast d x)
  show ?case
  proof (intro allI impI)
    fix x' assume v: "visited (Cast d x) = Inr x'"
    then obtain a where a: "visited x = Inr a" and x': "x' = Cast d a"
      by (auto simp: visited_Cast split: sum.splits)
    have "visited a = Inr a"
      using Cast.IH a by simp
    then show "dtype x' = dtype (Cast d x) \<and> visited x' = Inr x'"
      by (simp add: x' visited_Cast)
  qed
next
  case (OtherExpr kind children d)
  show ?case
  proof (intro allI impI)
    fix x' assume v: "visited (OtherExpr kind children d) = Inr x'"
    then obtain cs where l: "visit_list children = Inr cs" and x': "x' = OtherExpr kind cs d"
      by (auto simp: visited_OtherExpr split: sum.splits)
    have "\<forall>y \<in> set cs. visited y = Inr y"
      using visit_list_pointwise [OF _ l] OtherExpr.IH by blast
    then have "visit_list cs = Inr cs"
      by (rule visit_list_fixed)
    then show "dtype x' = dtype (OtherExpr kind children d) \<and> visited x' = Inr x'"
      by (simp add: x' visited_OtherExpr)
  qed
qed

lemma visit_tag: "visited x = Inr x \<Longrightarrow> visit x = Inr (Same x)"
  by (cases x)
    (auto simp: visited_def visit.simps update_node_def split: sum.splits prod.splits if_splits)

lemma visit_list_length: "visit_list xs = Inr xs' \<Longrightarrow> length xs' = length xs"
  by (induction xs arbitrary: xs') (auto simp: visit_list_Cons split: sum.splits)

lemma upcast_nodes_Inl: "upcast_nodes xs = Inl e \<longleftrightarrow> xs = [] \<and> e = ValueError"
  by (cases xs) (auto simp: upcast_nodes_def)

lemma visit_list_raises:
  assumes "\<And>x. x \<in> set xs \<Longrightarrow>
     (has_empty_call x \<longrightarrow> visited x = Inl ValueError) \<and>
     (\<not> has_empty_call x \<longrightarrow> (\<exists>x'. visited x = Inr x'))"
  shows "(has_empty_call_list xs \<longrightarrow> visit_list xs = Inl ValueError) \<and>
     (\<not> has_empty_call_list xs \<longrightarrow> (\<exists>xs'. visit_list xs = Inr xs'))"
  using assms
proof (induction xs)
  case Nil
  show ?case by simp
next
  case (Cons x xs)
  have x: "(has_empty_call x \<longrightarrow> visited x = Inl ValueError) \<and>
     (\<not> has_empty_call x \<longrightarrow> (\<exists>x'. visited x = Inr x'))"
    by (intro Cons.prems) simp
  have xs: "(has_empty_call_list xs \<longrightarrow> visit_list xs = Inl ValueError) \<and>
     (\<not> has_empty_call_list xs \<longrightarrow> (\<exists>xs'. visit_list xs = Inr xs'))"
  proof (rule Cons.IH)
    fix y assume "y \<in> set xs"
    then show "(has_empty_call y \<longrightarrow> visited y = Inl ValueError) \<and>
     (\<not> has_empty_call y \<longrightarrow> (\<exists>x'. visited y = Inr x'))"
      by (intro Cons.prems) simp
  qed
  show ?case
  proof (cases "has_empty_call x")
    case True
    with x show ?thesis by (simp add: visit_list_Cons)
  next
    case False
    with x obtain x' where "visited x = Inr x'" by blast
    with False xs show ?thesis
      by (cases "has_empty_call_list xs") (auto simp: visit_list_Cons)
  qed
qed

lemma visited_raises:
  "(has_empty_call x \<longrightarrow> visited x = Inl ValueError) \<and>
   (\<not> has_empty_call x \<longrightarrow> (\<exists>x'. visited x = Inr x'))"
proof (induction x)
  case (BinaryOp op l r d)
  show ?case
  proof (cases "has_empty_call l")
    case True
    with BinaryOp.IH show ?thesis by (simp add: visited_BinaryOp)
  next
    case False
    with BinaryOp.IH obtain a where "visited l = Inr a" by blast
    with False BinaryOp.IH(2) show ?thesis
      by (cases "has_empty_call r") (auto simp: visited_BinaryOp)
  qed
next
  case (TernaryOp c t f d)
  show ?case
  proof (cases "has_empty_call t")
    case True
    with TernaryOp.IH show ?thesis by (simp add: visited_TernaryOp)
  next
    case t: False
    with TernaryOp.IH obtain a where a: "visited t = Inr a" by blast
    show ?thesis
    proof (cases "has_empty_call f")
      case True
      with TernaryOp.IH a show ?thesis by (simp add: visited_TernaryOp)
    next
      case f: False
      with TernaryOp.IH obtain b where b: "visited f = Inr b" by blast
      from t f a b TernaryOp.IH(1) show ?thesis
        by (cases "has_empty_call c") (auto simp: visited_TernaryOp)
    qed
  qed
next
  case (NativeFuncCall func args d)
  have l: "(has_empty_call_list args \<longrightarrow> visit_list args = Inl ValueError) \<and>
     (\<not> has_empty_call_list args \<longrightarrow> (\<exists>xs'. visit_list args = Inr xs'))"
    by (rule visit_list_raises) (rule NativeFuncCall.IH)
  show ?case
  proof (cases "has_empty_call_list args")
    case True
    with l show ?thesis by (simp add: visited_NativeFuncCall)
  next
    case False
    with l obtain args' where a: "visit_list args = Inr args'" by blast
    then have len: "length args' = length args" by (rule visit_list_length)
    show ?thesis
    proof (cases "args = []")
      case True
      with a show ?thesis
        by (simp add: visited_NativeFuncCall upcast_nodes_def)
    next
      case ne: False
      with len have "args' \<noteq> []" by auto
      then obtain ys where "upcast_nodes args' = Inr ys"
        using upcast_nodes_Inl [of args'] by (cases "upcast_nodes args'") auto
      with a False ne show ?thesis
        by (simp add: visited_NativeFuncCall)
    qed
  qed
next
  case (Cast d x)
  show ?case
  proof (cases "has_empty_call x")
    case True
    with Cast.IH show ?thesis by (simp add: visited_Cast)
  next
    case False
    with Cast.IH obtain a where "visited x = Inr a" by blast
    with False show ?thesis by (simp add: visited_Cast)
  qed
next
  case (OtherExpr kind children d)
  have l: "(has_empty_call_list children \<longrightarrow> visit_list children = Inl ValueError) \<and>
     (\<not> has_empty_call_list children \<longrightarrow> (\<exists>xs'. visit_list children = Inr xs'))"
    by (rule visit_list_raises) (rule OtherExpr.IH)
  show ?case
  proof (cases "has_empty_call_list children")
    case True
    with l show ?thesis by (simp add: visited_OtherExpr)
  next
    case False
    with l obtain cs where "visit_list children = Inr cs" by blast
    with False show ?thesis by (simp add: visited_OtherExpr)
  qed
qed

lemma upcast_value_ParAssignStmt:
  "upcast_value (ParAssignStmt left right) =
     (case visited right of Inl e \<Rightarrow> Inl e
      | Inr r' \<Rightarrow> Inr (ParAssignStmt left (upcast_node (field_dtype left) r')))"
  by (auto simp: upcast_value_def upcast_def visited_def obj_update_node Let_def
      split: sum.splits)

lemma upcast_value_ExprChild:
  "upcast_value (ExprChild x) =
     (case visited x of Inl e \<Rightarrow> Inl e | Inr x' \<Rightarrow> Inr (ExprChild x'))"
  by (auto simp: upcast_value_def upcast_def visited_def split: sum.splits reuse.splits)

lemma upcast_value_OtherNode:
  "upcast_value (OtherNode kind children) =
     (case visit_nodes children of Inl e \<Rightarrow> Inl e
      | Inr children' \<Rightarrow> Inr (OtherNode kind children'))"
  by (auto simp: upcast_value_def upcast_def obj_update_node split: sum.splits)

lemma visit_nodes_Cons:
  "visit_nodes (x # xs) =
     (case upcast_value x of Inl e \<Rightarrow> Inl e | Inr a \<Rightarrow>
     (case visit_nodes xs of Inl e \<Rightarrow> Inl e | Inr as \<Rightarrow> Inr (a # as)))"
  by (auto simp: upcast_value_def upcast_def split: sum.splits)

lemma visit_nodes_Nil: "visit_nodes [] = Inr []"
  by simp

declare visit_node.simps [simp del] visit_nodes.simps [simp del]

declare visit_nodes_Nil [simp]

lemma visit_nodes_pointwise:
  assumes "\<And>x. x \<in> set xs \<Longrightarrow> \<forall>x'. upcast_value x = Inr x' \<longrightarrow> upcast_value x' = Inr x'"
    and "visit_nodes xs = Inr xs'"
  shows "visit_nodes xs' = Inr xs'"
  using assms
proof (induction xs arbitrary: xs')
  case Nil
  then show ?case by simp
next
  case (Cons x xs)
  from Cons.prems(2) obtain a as where a: "upcast_value x = Inr a"
    and as: "visit_nodes xs = Inr as" and xs': "xs' = a # as"
    by (auto simp: visit_nodes_Cons split: sum.splits)
  have "\<forall>x'. upcast_value x = Inr x' \<longrightarrow> upcast_value x' = Inr x'"
    by (intro Cons.prems(1)) simp
  with a have a': "upcast_value a = Inr a" by simp
  have "visit_nodes as = Inr as"
  proof (rule Cons.IH [OF _ as])
    fix y assume "y \<in> set xs"
    then show "\<forall>x'. upcast_value y = Inr x' \<longrightarrow> upcast_value x' = Inr x'"
      by (intro Cons.prems(1)) simp
  qed
  with a' show ?case by (simp add: xs' visit_nodes_Cons)
qed

lemma upcast_value_idem:
  "\<forall>n'. upcast_value n = Inr n' \<longrightarrow> upcast_value n' = Inr n'"
proof (induction n)
  case (ParAssignStmt left right)
  show ?case
  proof (intro allI impI)
    fix n' assume "upcast_value (ParAssignStmt left right) = Inr n'"
    then obtain r' where r': "visited right = Inr r'"
      and n': "n' = ParAssignStmt left (upcast_node (field_dtype left) r')"
      by (auto simp: upcast_value_ParAssignStmt split: sum.splits)
    have "visited r' = Inr r'"
      using visited_idem [of right] r' by simp
    then have "visited (upcast_node (field_dtype left) r')
        = Inr (upcast_node (field_dtype left) r')"
      by (rule visited_upcast_node)
    then show "upcast_value n' = Inr n'"
      by (simp add: n' upcast_value_ParAssignStmt)
  qed
next
  case (ExprChild x)
  show ?case
  proof (intro allI impI)
    fix n' assume "upcast_value (ExprChild x) = Inr n'"
    then obtain x' where x': "visited x = Inr x'" and n': "n' = ExprChild x'"
      by (auto simp: upcast_value_ExprChild split: sum.splits)
    have "visited x' = Inr x'"
      using visited_idem [of x] x' by simp
    then show "upcast_value n' = Inr n'"
      by (simp add: n' upcast_value_ExprChild)
  qed
next
  case (OtherNode kind children)
  show ?case
  proof (intro allI impI)
    fix n' assume "upcast_value (OtherNode kind children) = Inr n'"
    then obtain cs where cs: "visit_nodes children = Inr cs" and n': "n' = OtherNode kind cs"
      by (auto simp: upcast_value_OtherNode split: sum.splits)
    have "visit_nodes cs = Inr cs"
      by (rule visit_nodes_pointwise [OF _ cs]) (rule OtherNode.IH)
    then show "upcast_value n' = Inr n'"
      by (simp add: n' upcast_value_OtherNode)
  qed
qed

lemma upcast_tag: "upcast_value n = Inr n \<Longrightarrow> upcast n = Inr (Same n)"
proof (cases n)
  case (ParAssignStmt left right)
  assume "upcast_value n = Inr n"
  then show ?thesis
    by (auto simp: ParAssignStmt upcast_value_def upcast_def visit_node.simps update_node_def
        Let_def split: sum.splits if_splits)
next
  case (ExprChild x)
  assume "upcast_value n = Inr n"
  then have "visited x = Inr x"
    by (auto simp: ExprChild upcast_value_ExprChild split: sum.splits)
  then have "visit x = Inr (Same x)" by (rule visit_tag)
  then show ?thesis
    by (simp add: ExprChild upcast_def visit_node.simps)
next
  case (OtherNode kind children)
  assume "upcast_value n = Inr n"
  then show ?thesis
    by (auto simp: OtherNode upcast_value_def upcast_def visit_node.simps update_node_def
        split: sum.splits if_splits)
qed

text \<open>
  C6. Upcasting is idempotent: when \<open>upcast t\<close> returns a tree, \<open>upcast\<close> of that
  tree returns the very object it was given, having changed nothing and inserted no
  further \<open>Cast\<close>; when \<open>upcast t\<close> raises, there is no tree to run it on again.
\<close>

theorem upcast_idempotent:
  "(case upcast t of Inl e \<Rightarrow> Inl e | Inr r \<Rightarrow> upcast (obj r))
     = (case upcast t of Inl e \<Rightarrow> Inl e | Inr r \<Rightarrow> Inr (Same (obj r)))"
proof (cases "upcast t")
  case (Inl e)
  then show ?thesis by simp
next
  case (Inr r)
  then have "upcast_value t = Inr (obj r)"
    by (simp add: upcast_value_def)
  then have "upcast_value (obj r) = Inr (obj r)"
    using upcast_value_idem [of t] by simp
  then have "upcast (obj r) = Inr (Same (obj r))"
    by (rule upcast_tag)
  with Inr show ?thesis by simp
qed

theorem upcast_idempotent_witness:
  "upcast example_tree = Inr (Copy example_tree_upcast) \<and>
   upcast example_tree_upcast = Inr (Same example_tree_upcast)"
proof -
  have a: "upcast example_tree = Inr (Copy example_tree_upcast)"
    by code_simp
  from upcast_idempotent [of example_tree] a show ?thesis by simp
qed

text \<open>
  C7 (amended). For a binary operation whose operands have the same dtype, the visit
  wraps neither operand in a \<open>Cast\<close>: with \<open>l'\<close> and \<open>r'\<close> the trees returned for the
  operands, it returns the node itself (the same object) when \<open>l'\<close> and \<open>r'\<close> equal the
  original operands, and otherwise a copy whose operands are \<open>l'\<close> and \<open>r'\<close>.
\<close>

theorem binary_same_dtype:
  assumes "dtype l = dtype r" and "visited l = Inr l'" and "visited r = Inr r'"
  shows "visit (BinaryOp op l r d) =
           Inr (if l' = l \<and> r' = r then Same (BinaryOp op l r d)
                else Copy (BinaryOp op l' r' d))"
proof -
  have "dtype l' = dtype l" "dtype r' = dtype r"
    using visited_idem [of l] visited_idem [of r] assms by simp_all
  with assms(1) have m: "max (dtype l') (dtype r') = dtype l'" "dtype r' = dtype l'"
    by simp_all
  from assms(2,3) obtain a b where a: "visit l = Inr a" "obj a = l'"
    and b: "visit r = Inr b" "obj b = r'"
    by (auto simp: visited_def split: sum.splits)
  show ?thesis
    using a b m by (auto simp: visit.simps upcast_nodes_pair update_node_def)
qed

theorem binary_same_dtype_witness:
  "visit (BinaryOp ''+'' (literal FLOAT64) (literal FLOAT64) FLOAT64)
     = Inr (Same (BinaryOp ''+'' (literal FLOAT64) (literal FLOAT64) FLOAT64))"
proof -
  have v: "visited (literal FLOAT64) = Inr (literal FLOAT64)"
    by code_simp
  from binary_same_dtype [OF refl v v, of "''+''" FLOAT64] show ?thesis by simp
qed

text \<open>
  C7 as stated fails: the operands of the outer operation have the same dtype, but the
  left operand has a mismatch inside, so the visit returns a copy that differs from the
  node it was given.
\<close>

theorem binary_same_dtype_counterexample:
  "dtype (BinaryOp ''+'' (literal INT32) (literal FLOAT64) FLOAT64) = dtype (literal FLOAT64) \<and>
   visit (BinaryOp ''*'' (BinaryOp ''+'' (literal INT32) (literal FLOAT64) FLOAT64)
            (literal FLOAT64) FLOAT64)
     = Inr (Copy (BinaryOp ''*''
                   (BinaryOp ''+'' (Cast FLOAT64 (literal INT32)) (literal FLOAT64) FLOAT64)
                   (literal FLOAT64) FLOAT64))"
  by code_simp

text \<open>
  C8. For a parallel assignment, the left side of the result is the left side of the
  statement, never cast; the right side is the visited right side, wrapped in a \<open>Cast\<close>
  to the dtype of the left side exactly when the dtype of the right side differs from it,
  whichever of the two is the wider.
\<close>

theorem par_assign_casts_right:
  assumes "visited right = Inr r'"
  shows "upcast_value (ParAssignStmt left right) =
           Inr (ParAssignStmt left
                  (if dtype right = field_dtype left then r' else Cast (field_dtype left) r'))"
proof -
  have "dtype r' = dtype right"
    using visited_idem [of right] assms by simp
  then show ?thesis
    using assms by (simp add: upcast_value_ParAssignStmt upcast_node_def)
qed

theorem par_assign_casts_right_witness:
  "upcast_value (ParAssignStmt (FieldAccess ''out'' FLOAT32) (literal FLOAT64))
     = Inr (ParAssignStmt (FieldAccess ''out'' FLOAT32) (Cast FLOAT32 (literal FLOAT64)))"
proof -
  have v: "visited (literal FLOAT64) = Inr (literal FLOAT64)"
    by code_simp
  have d: "dtype (literal FLOAT64) \<noteq> field_dtype (FieldAccess ''out'' FLOAT32)"
    by code_simp
  from par_assign_casts_right [OF v, of "FieldAccess ''out'' FLOAT32"] d
  show ?thesis by simp
qed

lemma visit_nodes_raises:
  assumes "\<And>x. x \<in> set xs \<Longrightarrow>
     (node_has_empty_call x \<longrightarrow> upcast_value x = Inl ValueError) \<and>
     (\<not> node_has_empty_call x \<longrightarrow> (\<exists>x'. upcast_value x = Inr x'))"
  shows "(nodes_have_empty_call xs \<longrightarrow> visit_nodes xs = Inl ValueError) \<and>
     (\<not> nodes_have_empty_call xs \<longrightarrow> (\<exists>xs'. visit_nodes xs = Inr xs'))"
  using assms
proof (induction xs)
  case Nil
  show ?case by simp
next
  case (Cons x xs)
  have x: "(node_has_empty_call x \<longrightarrow> upcast_value x = Inl ValueError) \<and>
     (\<not> node_has_empty_call x \<longrightarrow> (\<exists>x'. upcast_value x = Inr x'))"
    by (intro Cons.prems) simp
  have xs: "(nodes_have_empty_call xs \<longrightarrow> visit_nodes xs = Inl ValueError) \<and>
     (\<not> nodes_have_empty_call xs \<longrightarrow> (\<exists>xs'. visit_nodes xs = Inr xs'))"
  proof (rule Cons.IH)
    fix y assume "y \<in> set xs"
    then show "(node_has_empty_call y \<longrightarrow> upcast_value y = Inl ValueError) \<and>
     (\<not> node_has_empty_call y \<longrightarrow> (\<exists>x'. upcast_value y = Inr x'))"
      by (intro Cons.prems) simp
  qed
  show ?case
  proof (cases "node_has_empty_call x")
    case True
    with x show ?thesis by (simp add: visit_nodes_Cons)
  next
    case False
    with x obtain x' where "upcast_value x = Inr x'" by blast
    with False xs show ?thesis
      by (cases "nodes_have_empty_call xs") (auto simp: visit_nodes_Cons)
  qed
qed

lemma upcast_value_raises:
  "(node_has_empty_call n \<longrightarrow> upcast_value n = Inl ValueError) \<and>
   (\<not> node_has_empty_call n \<longrightarrow> (\<exists>n'. upcast_value n = Inr n'))"
proof (induction n)
  case (ParAssignStmt left right)
  show ?case
    using visited_raises [of right]
    by (cases "has_empty_call right") (auto simp: upcast_value_ParAssignStmt)
next
  case (ExprChild x)
  show ?case
    using visited_raises [of x]
    by (cases "has_empty_call x") (auto simp: upcast_value_ExprChild)
next
  case (OtherNode kind children)
  have l: "(nodes_have_empty_call children \<longrightarrow> visit_nodes children = Inl ValueError) \<and>
     (\<not> nodes_have_empty_call children \<longrightarrow> (\<exists>xs'. visit_nodes children = Inr xs'))"
    by (rule visit_nodes_raises) (rule OtherNode.IH)
  show ?case
  proof (cases "nodes_have_empty_call children")
    case True
    with l show ?thesis by (simp add: upcast_value_OtherNode)
  next
    case False
    with l obtain cs where "visit_nodes children = Inr cs" by blast
    with False show ?thesis by (simp add: upcast_value_OtherNode)
  qed
qed

text \<open>
  C9. \<open>upcast\<close> is not total: on a tree that contains a native function call without
  arguments it raises \<open>ValueError\<close> (the maximum of an empty sequence); on every other
  tree it returns.
\<close>

theorem upcast_raises_on_empty_call:
  "(node_has_empty_call t \<longrightarrow> upcast t = Inl ValueError) \<and>
   (\<not> node_has_empty_call t \<longrightarrow> (\<exists>r. upcast t = Inr r))"
  using upcast_value_raises [of t]
  by (cases "upcast t") (auto simp: upcast_value_def)

theorem upcast_raises_on_empty_call_witness:
  "upcast empty_call_tree = Inl ValueError \<and> (\<exists>r. upcast example_tree = Inr r)"
proof -
  have a: "node_has_empty_call empty_call_tree"
    by code_simp
  have b: "\<not> node_has_empty_call example_tree"
    by code_simp
  from upcast_raises_on_empty_call [of empty_call_tree] a
    upcast_raises_on_empty_call [of example_tree] b
  show ?thesis by blast
qed

end
